theory Spec2Isabelle
  imports
    Complex_Main
    "HOL-Library.Char_ord"
    "HOL-Library.List_Lexorder"
    "HOL-Library.Product_Lexorder"
    "HOL-Library.Multiset"
begin

section \<open>photo-normalizer: the planning pipeline of \<open>cli.py\<close>\<close>

text \<open>
  The development embeds the planning half of \<open>photo_normalizer/cli.py\<close>:
  capture-time resolution (\<open>determine_capture_datetime\<close> and its helpers), the
  path functions \<open>build_target_path\<close> and \<open>ensure_unique\<close>, and the part of
  \<open>main\<close> that builds, sorts and numbers the plan. Library calls the source makes
  (\<open>str\<close>, format specifications, \<open>datetime.strftime\<close>, \<open>pathlib\<close>, \<open>re\<close>)
  are modelled by the functions of the first subsections; the model of each one says
  which behaviour of the library it writes down.
\<close>

subsection \<open>Python strings and integers\<close>

text \<open>
  A \<open>str\<close> is a \<open>string\<close>, a list of characters with code points below 256;
  characters are compared by code point, which is the order of \<open>Char_ord\<close>, and
  strings lexicographically (\<open>List_Lexorder\<close>), as Python compares them.
\<close>

definition is_digit :: "char \<Rightarrow> bool" where
  "is_digit c = (c \<in> set ''0123456789'')"

text \<open>\<open>digit_char\<close> is only applied to numbers below ten.\<close>

definition digit_char :: "nat \<Rightarrow> char" where
  "digit_char d = ''0123456789'' ! d"

definition digit_val :: "char \<Rightarrow> nat" where
  "digit_val c = of_char c - 48"

text \<open>\<open>str(n)\<close> for a non-negative integer: its decimal digits.\<close>

fun str_nat :: "nat \<Rightarrow> string" where
  "str_nat n = (if n < 10 then [digit_char n] else str_nat (n div 10) @ [digit_char (n mod 10)])"

declare str_nat.simps [simp del]

text \<open>The value of a string of decimal digits (the inverse of \<open>str_nat\<close>).\<close>

definition nat_of_digits :: "string \<Rightarrow> nat" where
  "nat_of_digits s = foldl (\<lambda>acc c. 10 * acc + digit_val c) 0 s"

text \<open>\<open>s.zfill(w)\<close> on a string without sign: zeros on the left up to width \<open>w\<close>.\<close>

definition zfill :: "nat \<Rightarrow> string \<Rightarrow> string" where
  "zfill w s = replicate (w - length s) (CHR ''0'') @ s"

text \<open>
  The format specification \<open>04d\<close> of \<open>f"{idx:04d}"\<close>: sign-aware zero padding to
  width four, the sign counting towards the width.
\<close>

definition format_04d :: "int \<Rightarrow> string" where
  "format_04d i =
     (if i < 0 then CHR ''-'' # zfill 3 (str_nat (nat (- i))) else zfill 4 (str_nat (nat i)))"

text \<open>
  \<open>str.lower\<close> on code points below 256: the capitals \<open>A\<close> to \<open>Z\<close> and the
  capitals \<open>0xC0\<close> to \<open>0xDE\<close> of Latin-1 (without \<open>0xD7\<close>, the multiplication
  sign) become the letter 32 code points above; every other character is kept.
\<close>

definition latin1_upper :: string where
  "latin1_upper =
     ''ABCDEFGHIJKLMNOPQRSTUVWXYZ'' @
       [CHR 0xC0, CHR 0xC1, CHR 0xC2, CHR 0xC3, CHR 0xC4, CHR 0xC5, CHR 0xC6, CHR 0xC7,
        CHR 0xC8, CHR 0xC9, CHR 0xCA, CHR 0xCB, CHR 0xCC, CHR 0xCD, CHR 0xCE, CHR 0xCF,
        CHR 0xD0, CHR 0xD1, CHR 0xD2, CHR 0xD3, CHR 0xD4, CHR 0xD5, CHR 0xD6, CHR 0xD8,
        CHR 0xD9, CHR 0xDA, CHR 0xDB, CHR 0xDC, CHR 0xDD, CHR 0xDE]"

definition latin1_lower :: string where
  "latin1_lower =
     ''abcdefghijklmnopqrstuvwxyz'' @
       [CHR 0xE0, CHR 0xE1, CHR 0xE2, CHR 0xE3, CHR 0xE4, CHR 0xE5, CHR 0xE6, CHR 0xE7,
        CHR 0xE8, CHR 0xE9, CHR 0xEA, CHR 0xEB, CHR 0xEC, CHR 0xED, CHR 0xEE, CHR 0xEF,
        CHR 0xF0, CHR 0xF1, CHR 0xF2, CHR 0xF3, CHR 0xF4, CHR 0xF5, CHR 0xF6, CHR 0xF8,
        CHR 0xF9, CHR 0xFA, CHR 0xFB, CHR 0xFC, CHR 0xFD, CHR 0xFE]"

definition lower_char :: "char \<Rightarrow> char" where
  "lower_char c =
     (case map_of (zip latin1_upper latin1_lower) c of
        Some l \<Rightarrow> l
      | None \<Rightarrow> c)"

definition lower :: "string \<Rightarrow> string" where
  "lower s = map lower_char s"

text \<open>\<open>s.split(sep)\<close> for a one-character separator.\<close>

fun split_sep :: "char \<Rightarrow> string \<Rightarrow> string list" where
  "split_sep sep [] = [[]]"
| "split_sep sep (x # xs) =
     (if x = sep then [] # split_sep sep xs
      else (case split_sep sep xs of
              [] \<Rightarrow> [[x]]
            | y # ys \<Rightarrow> (x # y) # ys))"

subsection \<open>Naive datetimes\<close>

text \<open>
  A naive \<open>datetime\<close> is its seven fields. Python compares two naive datetimes by
  comparing the tuples \<open>(year, month, day, hour, minute, second, microsecond)\<close>;
  \<open>dt_key\<close> is that tuple, ordered lexicographically by \<open>Product_Lexorder\<close>.
\<close>

record datetime =
  year :: nat
  month :: nat
  day :: nat
  hour :: nat
  minute :: nat
  second :: nat
  microsecond :: nat

definition dt_key :: "datetime \<Rightarrow> nat \<times> nat \<times> nat \<times> nat \<times> nat \<times> nat \<times> nat" where
  "dt_key dt = (year dt, month dt, day dt, hour dt, minute dt, second dt, microsecond dt)"

text \<open>\<open>dt.replace(microsecond=0)\<close>.\<close>

definition replace_microsecond_0 :: "datetime \<Rightarrow> datetime" where
  "replace_microsecond_0 dt = dt\<lparr>microsecond := 0\<rparr>"

text \<open>
  \<open>dt.strftime(fmt)\<close> for the directives the source uses. Python hands the format to
  the \<open>strftime\<close> of the C library: \<open>%m %d %H %M %S\<close> are two digits each, and
  \<open>%Y\<close> is the year in decimal, which some C libraries pad with zeros to four digits
  and others do not pad (glibc writes the year 999 as \<open>999\<close>). The first argument
  \<open>year_width\<close> is the width the platform pads the year to: 4, or 0 where it does not
  pad. Every other character of the format is copied.
\<close>

definition directive :: "nat \<Rightarrow> datetime \<Rightarrow> char \<Rightarrow> string" where
  "directive year_width dt c =
     (if c = CHR ''Y'' then zfill year_width (str_nat (year dt))
      else if c = CHR ''m'' then zfill 2 (str_nat (month dt))
      else if c = CHR ''d'' then zfill 2 (str_nat (day dt))
      else if c = CHR ''H'' then zfill 2 (str_nat (hour dt))
      else if c = CHR ''M'' then zfill 2 (str_nat (minute dt))
      else if c = CHR ''S'' then zfill 2 (str_nat (second dt))
      else [CHR ''%'', c])"

fun strftime :: "nat \<Rightarrow> datetime \<Rightarrow> string \<Rightarrow> string" where
  "strftime year_width dt [] = []"
| "strftime year_width dt [c] = [c]"
| "strftime year_width dt (c # d # fmt) =
     (if c = CHR ''%'' then directive year_width dt d @ strftime year_width dt fmt
      else c # strftime year_width dt (d # fmt))"

subsection \<open>pathlib paths\<close>

text \<open>
  A \<open>Path\<close> is its anchor (drive and root, \<open>''/''\<close> or empty on POSIX) and the list
  of its components after the anchor, as \<open>pathlib\<close> keeps it: no component is empty,
  is \<open>''.''\<close>, or holds a separator.
\<close>

record path =
  anchor :: string
  tail :: "string list"

datatype error = KeyError | IndexError | ValueError | OverflowError | OSError | SystemExit

definition valid_name :: "string \<Rightarrow> bool" where
  "valid_name n = (n \<noteq> [] \<and> CHR ''/'' \<notin> set n \<and> n \<noteq> ''.'')"

text \<open>\<open>Path.name\<close>: the final component, empty when there is none.\<close>

definition name :: "path \<Rightarrow> string" where
  "name p = (if tail p = [] then [] else last (tail p))"


text \<open>\<open>s.rfind(c)\<close>: the index of the last occurrence, \<open>None\<close> for Python's \<open>-1\<close>.\<close>

definition rfind :: "char \<Rightarrow> string \<Rightarrow> nat option" where
  "rfind c s =
     (if c \<in> set s then Some (length s - 1 - length (takeWhile (\<lambda>x. x \<noteq> c) (rev s)))
      else None)"

text \<open>
  \<open>Path.suffix\<close> and \<open>Path.stem\<close> as \<open>pathlib\<close> defines them (Python 3.9 to 3.13):
  with \<open>i = name.rfind('.')\<close>, the suffix is \<open>name[i:]\<close> and the stem \<open>name[:i]\<close>
  when \<open>0 < i < len(name) - 1\<close>; otherwise the suffix is empty and the stem is the
  whole name.
\<close>

definition name_suffix :: "string \<Rightarrow> string" where
  "name_suffix n =
     (case rfind (CHR ''.'') n of
        Some i \<Rightarrow> if 0 < i \<and> i < length n - 1 then drop i n else []
      | None \<Rightarrow> [])"

definition name_stem :: "string \<Rightarrow> string" where
  "name_stem n =
     (case rfind (CHR ''.'') n of
        Some i \<Rightarrow> if 0 < i \<and> i < length n - 1 then take i n else n
      | None \<Rightarrow> n)"

definition suffix :: "path \<Rightarrow> string" where
  "suffix p = name_suffix (name p)"

definition stem :: "path \<Rightarrow> string" where
  "stem p = name_stem (name p)"

text \<open>
  \<open>Path.with_name(n)\<close>: \<open>ValueError\<close> when the path has an empty name or \<open>n\<close> is
  not a valid name; otherwise the final component is replaced.
\<close>

definition with_name :: "path \<Rightarrow> string \<Rightarrow> error + path" where
  "with_name p n =
     (if name p = [] then Inl ValueError
      else if \<not> valid_name n then Inl ValueError
      else Inr (p\<lparr>tail := butlast (tail p) @ [n]\<rparr>))"

text \<open>
  \<open>p / s\<close> for a string \<open>s\<close>: the components of \<open>s\<close> (split at the separator,
  empty components and \<open>''.''\<close> dropped) are appended; a string that starts with
  the separator is absolute and replaces \<open>p\<close>.
\<close>

definition components :: "string \<Rightarrow> string list" where
  "components s = filter (\<lambda>n. n \<noteq> [] \<and> n \<noteq> ''.'') (split_sep (CHR ''/'') s)"

definition truediv :: "path \<Rightarrow> string \<Rightarrow> path" where
  "truediv p s =
     (if s \<noteq> [] \<and> hd s = CHR ''/'' then \<lparr>anchor = ''/'', tail = components s\<rparr>
      else p\<lparr>tail := tail p @ components s\<rparr>)"

subsection \<open>\<open>build_target_path\<close>\<close>

text \<open>The five parameters of the source, after the \<open>year_width\<close> of the platform's
  \<open>strftime\<close>.\<close>

definition build_target_path ::
  "nat \<Rightarrow> path \<Rightarrow> datetime \<Rightarrow> int \<Rightarrow> string \<Rightarrow> string \<Rightarrow> path" where
  "build_target_path year_width output_dir capture_dt idx subfolders target_ext =
     (let base_name = strftime year_width capture_dt ''%Y-%m-%d_%H-%M-%S'' @ ''_'' @ format_04d idx @ target_ext
      in if subfolders = ''none'' then truediv output_dir base_name
         else if subfolders = ''day'' then
           truediv (truediv output_dir (strftime year_width capture_dt ''%Y/%m/%d'')) base_name
         else if subfolders = ''month'' then
           truediv (truediv output_dir (strftime year_width capture_dt ''%Y/%m'')) base_name
         else if subfolders = ''year'' then
           truediv (truediv output_dir (strftime year_width capture_dt ''%Y'')) base_name
         else truediv output_dir base_name)"

subsection \<open>\<open>ensure_unique\<close>\<close>

text \<open>
  The destination file system is the finite list \<open>fs\<close> of the paths that exist;
  \<open>path.exists()\<close> is membership. The \<open>while True\<close> loop is
  \<open>ensure_unique_loop\<close>; it ends because the candidates of different counters are
  different paths and only finitely many paths exist.
\<close>

lemma below_ten_cases:
  "(d::nat) < 10 \<Longrightarrow>
   d = 0 \<or> d = 1 \<or> d = 2 \<or> d = 3 \<or> d = 4 \<or> d = 5 \<or> d = 6 \<or> d = 7 \<or> d = 8 \<or> d = 9"
  by presburger

lemma digit_val_digit_char: "d < 10 \<Longrightarrow> digit_val (digit_char d) = d"
  using below_ten_cases [of d] by (auto simp: digit_val_def digit_char_def)

lemma is_digit_digit_char: "d < 10 \<Longrightarrow> is_digit (digit_char d)"
  using below_ten_cases [of d] by (auto simp: is_digit_def digit_char_def)

lemma nat_of_digits_snoc: "nat_of_digits (s @ [c]) = 10 * nat_of_digits s + digit_val c"
  by (simp add: nat_of_digits_def)

lemma nat_of_digits_str_nat: "nat_of_digits (str_nat n) = n"
proof (induction n rule: str_nat.induct)
  case (1 n)
  show ?case
  proof (cases "n < 10")
    case True
    then show ?thesis
      by (simp add: str_nat.simps [of n] nat_of_digits_def digit_val_digit_char)
  next
    case False
    with 1 have "nat_of_digits (str_nat (n div 10)) = n div 10"
      by simp
    with False show ?thesis
      by (simp add: str_nat.simps [of n] nat_of_digits_snoc digit_val_digit_char)
  qed
qed

lemma str_nat_inj: "str_nat m = str_nat n \<Longrightarrow> m = n"
  by (metis nat_of_digits_str_nat)

function ensure_unique_loop :: "path list \<Rightarrow> path \<Rightarrow> string \<Rightarrow> string \<Rightarrow> nat \<Rightarrow> error + path" where
  "ensure_unique_loop fs p stem' ext counter =
     (case with_name p (stem' @ ''__'' @ str_nat counter @ ext) of
        Inl e \<Rightarrow> Inl e
      | Inr candidate \<Rightarrow>
          if candidate \<notin> set fs then Inr candidate
          else ensure_unique_loop fs p stem' ext (counter + 1))"
  by pat_completeness auto

termination
proof (relation "measure (\<lambda>(fs, p, s, e, counter).
    card {k. counter \<le> k \<and> p\<lparr>tail := butlast (tail p) @ [s @ ''__'' @ str_nat k @ e]\<rparr> \<in> set fs})")
  show "wf (measure (\<lambda>(fs, p, s, e, counter).
    card {k. counter \<le> k \<and> p\<lparr>tail := butlast (tail p) @ [s @ ''__'' @ str_nat k @ e]\<rparr> \<in> set fs}))"
    by simp
next
  fix fs :: "path list" and p :: path and stem' ext :: string and counter :: nat and candidate :: path
  assume w: "with_name p (stem' @ ''__'' @ str_nat counter @ ext) = Inr candidate"
    and ex: "\<not> candidate \<notin> set fs"
  let ?f = "\<lambda>k. p\<lparr>tail := butlast (tail p) @ [stem' @ ''__'' @ str_nat k @ ext]\<rparr>"
  let ?K = "\<lambda>c. {k. c \<le> k \<and> ?f k \<in> set fs}"
  have inj: "inj ?f"
  proof (rule injI)
    fix a b
    assume "?f a = ?f b"
    then have "tail (?f a) = tail (?f b)"
      by simp
    then have "str_nat a = str_nat b"
      by simp
    then show "a = b"
      by (rule str_nat_inj)
  qed
  have fin: "finite (?K counter)"
  proof -
    have "finite (?f -` set fs)"
      using inj by (simp add: finite_vimageI)
    moreover have "?K counter \<subseteq> ?f -` set fs"
      by auto
    ultimately show ?thesis
      by (rule rev_finite_subset)
  qed
  from w have cand: "candidate = ?f counter"
    by (auto simp: with_name_def split: if_splits)
  with ex have "counter \<in> ?K counter"
    by simp
  moreover have "counter \<notin> ?K (counter + 1)"
    by simp
  moreover have "?K (counter + 1) \<subseteq> ?K counter"
    by auto
  ultimately have "?K (counter + 1) \<subset> ?K counter"
    by blast
  with fin have "card (?K (counter + 1)) < card (?K counter)"
    by (rule psubset_card_mono)
  then show "((fs, p, stem', ext, counter + 1), (fs, p, stem', ext, counter)) \<in>
      measure (\<lambda>(fs, p, s, e, counter).
        card {k. counter \<le> k \<and> p\<lparr>tail := butlast (tail p) @ [s @ ''__'' @ str_nat k @ e]\<rparr> \<in> set fs})"
    by simp
qed

declare ensure_unique_loop.simps [simp del]

definition ensure_unique :: "path list \<Rightarrow> path \<Rightarrow> error + path" where
  "ensure_unique fs p =
     (if p \<notin> set fs then Inr p
      else ensure_unique_loop fs p (stem p) (suffix p) 1)"

subsection \<open>Regular expressions\<close>

text \<open>
  The fragment of \<open>re\<close> that \<open>DATETIME_NAME_PATTERNS\<close> uses: a character class
  (a literal is a class of one), sequence, alternation \<open>a|b\<close> (the left branch is
  tried first), the greedy option \<open>a?\<close> and a named group. \<open>rmatch\<close> is the
  backtracking matcher: it matches a prefix of the string and hands the rest and the
  groups to its continuation; when the continuation fails, the next alternative is
  tried. \<open>search\<close> is \<open>pattern.search\<close>: the match at the leftmost position that has
  one. A match is the association list of its groups, the last group bound first.
\<close>

datatype regex =
    Class string
  | Seq regex regex
  | Alt regex regex
  | Opt regex
  | Group string regex

type_synonym match = "(string \<times> string) list"

fun rmatch :: "regex \<Rightarrow> string \<Rightarrow> match \<Rightarrow> (string \<Rightarrow> match \<Rightarrow> 'a option) \<Rightarrow> 'a option" where
  "rmatch (Class cs) s g k =
     (case s of [] \<Rightarrow> None | c # rest \<Rightarrow> if c \<in> set cs then k rest g else None)"
| "rmatch (Seq a b) s g k = rmatch a s g (\<lambda>s' g'. rmatch b s' g' k)"
| "rmatch (Alt a b) s g k =
     (case rmatch a s g k of Some r \<Rightarrow> Some r | None \<Rightarrow> rmatch b s g k)"
| "rmatch (Opt a) s g k =
     (case rmatch a s g k of Some r \<Rightarrow> Some r | None \<Rightarrow> k s g)"
| "rmatch (Group n a) s g k =
     rmatch a s g (\<lambda>s' g'. k s' ((n, take (length s - length s') s) # g'))"

fun search :: "regex \<Rightarrow> string \<Rightarrow> match option" where
  "search r [] = rmatch r [] [] (\<lambda>s' g. Some g)"
| "search r (c # cs) =
     (case rmatch r (c # cs) [] (\<lambda>s' g. Some g) of
        Some g \<Rightarrow> Some g
      | None \<Rightarrow> search r cs)"

text \<open>\<open>seq [a, b, c]\<close> is the concatenation \<open>abc\<close>.\<close>

fun seq :: "regex list \<Rightarrow> regex" where
  "seq [] = Opt (Class [])"
| "seq [r] = r"
| "seq (r # rs) = Seq r (seq rs)"

text \<open>
  \<open>\d\<close> and \<open>\s\<close> on code points below 256: the decimal digits, and the characters
  for which \<open>str.isspace\<close> holds (tab to carriage return, the four separators
  \<open>0x1C\<close> to \<open>0x1F\<close>, the space, the next-line control \<open>0x85\<close> and the
  no-break space \<open>0xA0\<close>).
\<close>

definition re_d :: regex where
  "re_d = Class ''0123456789''"

definition whitespace :: string where
  "whitespace = [CHR 0x09, CHR 0x0A, CHR 0x0B, CHR 0x0C, CHR 0x0D,
                 CHR 0x1C, CHR 0x1D, CHR 0x1E, CHR 0x1F, CHR '' '', CHR 0x85, CHR 0xA0]"

text \<open>
  The one pattern of \<open>DATETIME_NAME_PATTERNS\<close>:
  \<^verbatim>\<open>(?P<y>20\d{2})[-_\.]?(?P<m>0[1-9]|1[0-2])[-_\.]?(?P<d>[0-2]\d|3[01])[_\-\s\.]?\<close>
  \<^verbatim>\<open>(?P<h>[01]\d|2[0-3])[:\._-]?(?P<min>[0-5]\d)[:\._-]?(?P<s>[0-5]\d)\<close>
\<close>

definition name_pattern :: regex where
  "name_pattern = seq
     [Group ''y'' (seq [Class ''2'', Class ''0'', re_d, re_d]),
      Opt (Class ''-_.''),
      Group ''m'' (Alt (Seq (Class ''0'') (Class ''123456789'')) (Seq (Class ''1'') (Class ''012''))),
      Opt (Class ''-_.''),
      Group ''d'' (Alt (Seq (Class ''012'') re_d) (Seq (Class ''3'') (Class ''01''))),
      Opt (Class (''_-'' @ whitespace @ ''.'')),
      Group ''h'' (Alt (Seq (Class ''01'') re_d) (Seq (Class ''2'') (Class ''0123''))),
      Opt (Class '':._-''),
      Group ''min'' (Seq (Class ''012345'') re_d),
      Opt (Class '':._-''),
      Group ''s'' (Seq (Class ''012345'') re_d)]"

definition DATETIME_NAME_PATTERNS :: "regex list" where
  "DATETIME_NAME_PATTERNS = [name_pattern]"

subsection \<open>\<open>try_parse_from_name\<close>\<close>

text \<open>
  \<open>int(s)\<close> on a group of the pattern. Every group is a run of decimal digits, for
  which \<open>int\<close> is the decimal value; the \<open>ValueError\<close> branch stands for the strings
  \<open>int\<close> refuses.
\<close>

definition py_int :: "string \<Rightarrow> error + int" where
  "py_int s =
     (if s \<noteq> [] \<and> (\<forall>c \<in> set s. is_digit c) then Inr (int (nat_of_digits s))
      else Inl ValueError)"

definition is_leap :: "int \<Rightarrow> bool" where
  "is_leap y = (y mod 4 = 0 \<and> (y mod 100 \<noteq> 0 \<or> y mod 400 = 0))"

definition days_in_month :: "int \<Rightarrow> int \<Rightarrow> int" where
  "days_in_month y m =
     (if m = 2 then (if is_leap y then 29 else 28)
      else if m = 4 \<or> m = 6 \<or> m = 9 \<or> m = 11 then 30
      else 31)"

text \<open>
  The constructor \<open>datetime(y, m, d, h, min, s)\<close>: \<open>ValueError\<close> unless the year is
  in \<open>1..9999\<close>, the month in \<open>1..12\<close>, the day in \<open>1..days_in_month\<close>, the hour
  in \<open>0..23\<close>, minute and second in \<open>0..59\<close>.
\<close>

definition datetime_ctor :: "int \<Rightarrow> int \<Rightarrow> int \<Rightarrow> int \<Rightarrow> int \<Rightarrow> int \<Rightarrow> error + datetime" where
  "datetime_ctor y m d h mi s =
     (if \<not> (1 \<le> y \<and> y \<le> 9999) then Inl ValueError
      else if \<not> (1 \<le> m \<and> m \<le> 12) then Inl ValueError
      else if \<not> (1 \<le> d \<and> d \<le> days_in_month y m) then Inl ValueError
      else if \<not> (0 \<le> h \<and> h \<le> 23) then Inl ValueError
      else if \<not> (0 \<le> mi \<and> mi \<le> 59) then Inl ValueError
      else if \<not> (0 \<le> s \<and> s \<le> 59) then Inl ValueError
      else Inr \<lparr>year = nat y, month = nat m, day = nat d, hour = nat h, minute = nat mi,
                second = nat s, microsecond = 0\<rparr>)"

text \<open>\<open>match.group(n)\<close>; a name that is not a group of the pattern raises
  \<open>IndexError\<close>.\<close>

definition group :: "match \<Rightarrow> string \<Rightarrow> error + string" where
  "group g n = (case map_of g n of None \<Rightarrow> Inl IndexError | Some s \<Rightarrow> Inr s)"

definition int_group :: "match \<Rightarrow> string \<Rightarrow> error + int" where
  "int_group g n = (case group g n of Inl e \<Rightarrow> Inl e | Inr s \<Rightarrow> py_int s)"

text \<open>The body of the \<open>try\<close>: the first exception of the six conversions or of the
  constructor is its result.\<close>

definition datetime_of_match :: "match \<Rightarrow> error + datetime" where
  "datetime_of_match g =
     (case int_group g ''y'' of Inl e \<Rightarrow> Inl e | Inr y \<Rightarrow>
      case int_group g ''m'' of Inl e \<Rightarrow> Inl e | Inr m \<Rightarrow>
      case int_group g ''d'' of Inl e \<Rightarrow> Inl e | Inr d \<Rightarrow>
      case int_group g ''h'' of Inl e \<Rightarrow> Inl e | Inr h \<Rightarrow>
      case int_group g ''min'' of Inl e \<Rightarrow> Inl e | Inr mi \<Rightarrow>
      case int_group g ''s'' of Inl e \<Rightarrow> Inl e | Inr s \<Rightarrow>
      datetime_ctor y m d h mi s)"

text \<open>The loop over the patterns: \<open>except Exception: continue\<close> goes on with the
  next pattern.\<close>

fun try_patterns :: "regex list \<Rightarrow> string \<Rightarrow> datetime option" where
  "try_patterns [] n = None"
| "try_patterns (pattern # patterns) n =
     (case search pattern n of
        None \<Rightarrow> try_patterns patterns n
      | Some m \<Rightarrow>
          (case datetime_of_match m of
             Inr dt \<Rightarrow> Some dt
           | Inl e \<Rightarrow> try_patterns patterns n))"

definition try_parse_from_name :: "string \<Rightarrow> datetime option" where
  "try_parse_from_name n = try_patterns DATETIME_NAME_PATTERNS n"

subsection \<open>The world a run reads\<close>

text \<open>
  What the source reads from outside is a parameter of the model: the image library
  (\<open>Image.open\<close>, \<open>getexif\<close>), \<open>Path.stat\<close>, and the library functions
  \<open>datetime.strptime\<close>, \<open>bytes.decode("utf-8", "ignore")\<close> and
  \<open>datetime.fromtimestamp\<close>. A call whose exception the source catches returns an
  \<open>outcome\<close>. The source does not catch what \<open>Path.stat\<close> and
  \<open>datetime.fromtimestamp\<close> raise, so these two return the exception or the value:
  \<open>Path.stat\<close> raises \<open>OSError\<close> for a file that cannot be examined, and
  \<open>datetime.fromtimestamp\<close> raises \<open>ValueError\<close>, \<open>OverflowError\<close> or
  \<open>OSError\<close> for a time outside the range it converts (the years 1 to 9999 at
  most). A POSIX timestamp (a Python \<open>float\<close>) is a \<open>real\<close>.
\<close>

datatype 'a outcome = Raises | Returns 'a

datatype exif_value = Str string | Bytes string | Other

text \<open>The dictionary \<open>exif\<close> of \<open>get_exif_datetime\<close>, keyed by tag name.\<close>

type_synonym exif_dict = "(string \<times> exif_value) list"

datatype image = Image (getexif: "exif_dict outcome")

record stat_result =
  st_birthtime :: "real option"
  st_mtime :: real

record world =
  Image_open :: "path \<Rightarrow> image outcome"
  path_stat :: "path \<Rightarrow> error + stat_result"
  strptime :: "string \<Rightarrow> string \<Rightarrow> datetime outcome"
  decode_utf8_ignore :: "string \<Rightarrow> string"
  fromtimestamp :: "real \<Rightarrow> error + datetime"

subsection \<open>\<open>get_exif_datetime\<close>\<close>

text \<open>\<open>value.strip()\<close> and \<open>value.replace("/", ":")\<close>.\<close>

definition strip :: "string \<Rightarrow> string" where
  "strip s =
     rev (dropWhile (\<lambda>c. c \<in> set whitespace) (rev (dropWhile (\<lambda>c. c \<in> set whitespace) s)))"

definition replace_slash_colon :: "string \<Rightarrow> string" where
  "replace_slash_colon s = map (\<lambda>c. if c = CHR ''/'' then CHR '':'' else c) s"

text \<open>The inner loop over the relaxed formats.\<close>

fun try_formats :: "world \<Rightarrow> string \<Rightarrow> string list \<Rightarrow> datetime option" where
  "try_formats w v [] = None"
| "try_formats w v (fmt # fmts) =
     (case strptime w v fmt of
        Returns dt \<Rightarrow> Some dt
      | Raises \<Rightarrow> try_formats w v fmts)"

text \<open>What one iteration does with a \<open>str\<close> value: \<open>Some\<close> is its \<open>return\<close>,
  \<open>None\<close> falls out of the \<open>if\<close> to the next key.\<close>

definition parse_exif_str :: "world \<Rightarrow> string \<Rightarrow> datetime option" where
  "parse_exif_str w v0 =
     (let v = replace_slash_colon (strip v0)
      in case strptime w v ''%Y:%m:%d %H:%M:%S'' of
           Returns dt \<Rightarrow> Some dt
         | Raises \<Rightarrow> try_formats w v [''%Y-%m-%d %H:%M:%S'', ''%Y/%m/%d %H:%M:%S''])"

fun exif_keys_loop :: "world \<Rightarrow> exif_dict \<Rightarrow> string list \<Rightarrow> datetime option" where
  "exif_keys_loop w exif [] = None"
| "exif_keys_loop w exif (key # keys) =
     (case map_of exif key of
        None \<Rightarrow> exif_keys_loop w exif keys
      | Some v0 \<Rightarrow>
          (let v = (case v0 of Bytes b \<Rightarrow> Str (decode_utf8_ignore w b) | _ \<Rightarrow> v0)
           in case v of
                Str s \<Rightarrow>
                  (case parse_exif_str w s of
                     Some dt \<Rightarrow> Some dt
                   | None \<Rightarrow> exif_keys_loop w exif keys)
              | _ \<Rightarrow> exif_keys_loop w exif keys))"

definition get_exif_datetime :: "world \<Rightarrow> image \<Rightarrow> datetime option" where
  "get_exif_datetime w img =
     (case getexif img of
        Raises \<Rightarrow> None
      | Returns exif_raw \<Rightarrow>
          if exif_raw = [] then None
          else exif_keys_loop w exif_raw [''DateTimeOriginal'', ''DateTime'', ''DateTimeDigitized''])"

subsection \<open>\<open>get_file_times\<close> and \<open>determine_capture_datetime\<close>\<close>

text \<open>
  An exception of \<open>path.stat()\<close> or of \<open>datetime.fromtimestamp(ts)\<close> leaves
  \<open>get_file_times\<close>. \<open>getattr(stat, "st_birthtime", None)\<close> is
  \<open>st_birthtime\<close>; in \<open>birth_ts or stat.st_mtime\<close> the left operand is taken
  unless it is \<open>None\<close> or zero.
\<close>

definition get_file_times :: "world \<Rightarrow> path \<Rightarrow> error + datetime" where
  "get_file_times w p =
     (case path_stat w p of
        Inl e \<Rightarrow> Inl e
      | Inr st \<Rightarrow>
          (let birth_ts = st_birthtime st;
               ts = (case birth_ts of
                       None \<Rightarrow> st_mtime st
                     | Some b \<Rightarrow> if b = 0 then st_mtime st else b)
           in fromtimestamp w ts))"

text \<open>
  Step 1 is inside a \<open>try\<close> whose \<open>except\<close> passes on to step 2, and
  \<open>try_parse_from_name\<close> raises nothing; what \<open>get_file_times\<close> raises in
  step 3 leaves \<open>determine_capture_datetime\<close>.
\<close>

definition determine_capture_datetime :: "world \<Rightarrow> path \<Rightarrow> error + datetime" where
  "determine_capture_datetime w p =
     (case (case Image_open w p of
              Raises \<Rightarrow> None
            | Returns img \<Rightarrow> get_exif_datetime w img) of
        Some dt \<Rightarrow> Inr dt
      | None \<Rightarrow>
          (case try_parse_from_name (name p) of
             Some dt_from_name \<Rightarrow> Inr dt_from_name
           | None \<Rightarrow> get_file_times w p))"

subsection \<open>The planning phase of \<open>main\<close>\<close>

record plan_item =
  source :: path
  target :: path
  capture_dt :: datetime
  needs_reencode :: bool

definition OUTPUT_FORMAT_TO_EXT :: "string \<Rightarrow> string option" where
  "OUTPUT_FORMAT_TO_EXT =
     map_of [(''jpeg'', ''.jpg''), (''png'', ''.png''), (''webp'', ''.webp''), (''tiff'', ''.tiff'')]"

text \<open>\<open>Path()\<close>, the placeholder target.\<close>

definition Path_empty :: path where
  "Path_empty = \<lparr>anchor = [], tail = []\<rparr>"

text \<open>
  The body of the first loop of \<open>main\<close>: one plan item per input file. When
  \<open>determine_capture_datetime\<close> raises, the \<open>except\<close> clause calls
  \<open>get_file_times\<close>, and what that call raises leaves \<open>main\<close>.
\<close>

definition initial_item :: "world \<Rightarrow> bool \<Rightarrow> string \<Rightarrow> path \<Rightarrow> error + plan_item" where
  "initial_item w copy_unchanged target_ext p =
     (case (case determine_capture_datetime w p of
              Inr dt \<Rightarrow> Inr dt
            | Inl e \<Rightarrow> get_file_times w p) of
        Inl e \<Rightarrow> Inl e
      | Inr dt \<Rightarrow>
          Inr \<lparr>source = p,
               target = Path_empty,
               capture_dt = dt,
               needs_reencode =
                 (if copy_unchanged \<and> lower (suffix p) = target_ext then False else True)\<rparr>)"

text \<open>The first loop: the items in the order of the input files, or the first
  exception.\<close>

fun build_plan :: "world \<Rightarrow> bool \<Rightarrow> string \<Rightarrow> path list \<Rightarrow> error + plan_item list" where
  "build_plan w copy_unchanged target_ext [] = Inr []"
| "build_plan w copy_unchanged target_ext (p # input_files) =
     (case initial_item w copy_unchanged target_ext p of
        Inl e \<Rightarrow> Inl e
      | Inr item \<Rightarrow>
          (case build_plan w copy_unchanged target_ext input_files of
             Inl e \<Rightarrow> Inl e
           | Inr plan \<Rightarrow> Inr (item # plan)))"

text \<open>The key of \<open>plan.sort\<close>: \<open>(p.capture_dt, p.source.name)\<close>.\<close>

definition sort_key_of :: "plan_item \<Rightarrow> (nat \<times> nat \<times> nat \<times> nat \<times> nat \<times> nat \<times> nat) \<times> string" where
  "sort_key_of p = (dt_key (capture_dt p), name (source p))"

text \<open>
  The second loop of \<open>main\<close>, with its two variables \<open>last_second\<close> and
  \<open>seq_in_second\<close>. \<open>next_seq\<close> is the value of \<open>seq_in_second\<close> after the
  \<open>if\<close> of one iteration.
\<close>

definition next_seq :: "datetime option \<Rightarrow> int \<Rightarrow> datetime \<Rightarrow> int" where
  "next_seq last_second seq_in_second current_second =
     (if last_second = None \<or> Some current_second \<noteq> last_second then 1
      else seq_in_second + 1)"

text \<open>\<open>next_last\<close> is the value of \<open>last_second\<close> after that \<open>if\<close>.\<close>

definition next_last :: "datetime option \<Rightarrow> datetime \<Rightarrow> datetime option" where
  "next_last last_second current_second =
     (if last_second = None \<or> Some current_second \<noteq> last_second then Some current_second
      else last_second)"

fun assign_targets ::
  "nat \<Rightarrow> path list \<Rightarrow> path \<Rightarrow> string \<Rightarrow> string \<Rightarrow> datetime option \<Rightarrow> int \<Rightarrow>
   plan_item list \<Rightarrow> error + plan_item list" where
  "assign_targets year_width fs output_dir subfolders target_ext last_second seq_in_second [] =
     Inr []"
| "assign_targets year_width fs output_dir subfolders target_ext last_second seq_in_second
     (item # items) =
     (let current_second = replace_microsecond_0 (capture_dt item);
          seq' = next_seq last_second seq_in_second current_second;
          last' = next_last last_second current_second;
          target_path =
            build_target_path year_width output_dir (capture_dt item) seq' subfolders target_ext
      in case ensure_unique fs target_path of
           Inl e \<Rightarrow> Inl e
         | Inr t \<Rightarrow>
             (case assign_targets year_width fs output_dir subfolders target_ext last' seq' items of
                Inl e \<Rightarrow> Inl e
              | Inr items' \<Rightarrow> Inr (item\<lparr>target := t\<rparr> # items')))"

text \<open>
  The values \<open>seq_in_second\<close> takes, one per iteration: the sequence number of
  each item of the plan.
\<close>

fun sequence_loop :: "datetime option \<Rightarrow> int \<Rightarrow> plan_item list \<Rightarrow> int list" where
  "sequence_loop last_second seq_in_second [] = []"
| "sequence_loop last_second seq_in_second (item # items) =
     (let current_second = replace_microsecond_0 (capture_dt item);
          seq' = next_seq last_second seq_in_second current_second;
          last' = next_last last_second current_second
      in seq' # sequence_loop last' seq' items)"

definition sequence_numbers :: "plan_item list \<Rightarrow> int list" where
  "sequence_numbers plan = sequence_loop None 0 plan"

text \<open>
  \<open>main\<close> from the lookup of the target extension to the end of the second loop.
  \<open>input_files\<close> is the list \<open>iter_input_files\<close> yielded, in the order it yielded
  it; \<open>fs\<close> is the destination file system, which planning does not write;
  \<open>year_width\<close> is that of the platform's \<open>strftime\<close>. An exception of the
  first loop ends \<open>main\<close>. \<open>plan.sort(key=...)\<close> is a stable sort by the key,
  which is what \<open>sort_key\<close> computes.
\<close>

definition main_plan ::
  "world \<Rightarrow> nat \<Rightarrow> path list \<Rightarrow> path \<Rightarrow> string \<Rightarrow> string \<Rightarrow> bool \<Rightarrow> path list \<Rightarrow>
   error + plan_item list" where
  "main_plan w year_width fs output_dir output_format subfolders copy_unchanged input_files =
     (case OUTPUT_FORMAT_TO_EXT output_format of
        None \<Rightarrow> Inl KeyError
      | Some target_ext \<Rightarrow>
          if input_files = [] then Inl SystemExit
          else
            (case build_plan w copy_unchanged target_ext input_files of
               Inl e \<Rightarrow> Inl e
             | Inr plan \<Rightarrow>
                 (let plan = sort_key sort_key_of plan
                  in assign_targets year_width fs output_dir subfolders target_ext None 0 plan)))"

subsection \<open>Notions used in the statements\<close>

text \<open>A number in at least four digits, in at least two, and the year as the
  platform's \<open>strftime\<close> writes it.\<close>

definition four_digits :: "nat \<Rightarrow> string" where
  "four_digits n = zfill 4 (str_nat n)"

definition two_digits :: "nat \<Rightarrow> string" where
  "two_digits n = zfill 2 (str_nat n)"

definition year_digits :: "nat \<Rightarrow> nat \<Rightarrow> string" where
  "year_digits year_width n = zfill year_width (str_nat n)"

text \<open>
  The base file name the specification gives:
  \<open>{timestamp:%Y-%m-%d_%H-%M-%S}_{sequence:04d}{extension}\<close>.
\<close>

definition base_filename :: "nat \<Rightarrow> datetime \<Rightarrow> int \<Rightarrow> string \<Rightarrow> string" where
  "base_filename yw dt idx ext =
     year_digits yw (year dt) @ ''-'' @ two_digits (month dt) @ ''-'' @ two_digits (day dt) @ ''_'' @
     two_digits (hour dt) @ ''-'' @ two_digits (minute dt) @ ''-'' @ two_digits (second dt) @
     ''_'' @ format_04d idx @ ext"

text \<open>The directories the specification gives for a layout policy, below the root.\<close>

definition layout_dirs :: "nat \<Rightarrow> string \<Rightarrow> datetime \<Rightarrow> string list" where
  "layout_dirs yw subfolders dt =
     (if subfolders = ''day'' then [year_digits yw (year dt), two_digits (month dt), two_digits (day dt)]
      else if subfolders = ''month'' then [year_digits yw (year dt), two_digits (month dt)]
      else if subfolders = ''year'' then [year_digits yw (year dt)]
      else [])"

text \<open>\<open>numbered p k\<close> is \<open>p\<close> with \<open>__k\<close> between the stem and the suffix of its
  name.\<close>

definition numbered :: "path \<Rightarrow> nat \<Rightarrow> path" where
  "numbered p k = p\<lparr>tail := butlast (tail p) @ [stem p @ ''__'' @ str_nat k @ suffix p]\<rparr>"

text \<open>
  \<open>main_plan\<close> unfolded: the plan it returns is the sorted list of initial items
  with their targets filled in. \<open>resolved_item\<close> is the initial item of a file
  whose capture time is resolved without an exception.
\<close>

definition resolved_item :: "world \<Rightarrow> bool \<Rightarrow> string \<Rightarrow> path \<Rightarrow> plan_item" where
  "resolved_item w copy_unchanged target_ext p =
     \<lparr>source = p,
      target = Path_empty,
      capture_dt = projr (determine_capture_datetime w p),
      needs_reencode = (if copy_unchanged \<and> lower (suffix p) = target_ext then False else True)\<rparr>"

definition sorted_items :: "world \<Rightarrow> bool \<Rightarrow> string \<Rightarrow> path list \<Rightarrow> plan_item list" where
  "sorted_items w copy_unchanged target_ext input_files =
     sort_key sort_key_of (map (resolved_item w copy_unchanged target_ext) input_files)"


text \<open>The whole second of a datetime, as a key: two datetimes are in the same second
  when their \<open>sec_key\<close>s are equal.\<close>

definition sec_key :: "datetime \<Rightarrow> nat \<times> nat \<times> nat \<times> nat \<times> nat \<times> nat" where
  "sec_key dt = (year dt, month dt, day dt, hour dt, minute dt, second dt)"

text \<open>The number of items of \<open>xs\<close> in the second of \<open>dt\<close>.\<close>

definition same_second_count :: "datetime \<Rightarrow> plan_item list \<Rightarrow> nat" where
  "same_second_count dt xs =
     length (filter (\<lambda>q. replace_microsecond_0 (capture_dt q) = replace_microsecond_0 dt) xs)"

text \<open>Step 1 of \<open>determine_capture_datetime\<close>: what its \<open>try\<close> block finds.\<close>

definition exif_datetime :: "world \<Rightarrow> path \<Rightarrow> datetime option" where
  "exif_datetime w p =
     (case Image_open w p of
        Raises \<Rightarrow> None
      | Returns img \<Rightarrow> get_exif_datetime w img)"

text \<open>
  The resolver as the specification describes it: an ordered list of lookups that can
  fail, of which the first success is taken. \<open>first_success\<close> is that reduction;
  \<open>exif_tag w p key\<close> is the lookup of one EXIF tag: nothing when the image cannot
  be opened or its EXIF data cannot be read, when the tag is missing or is neither
  text nor bytes, or when no format parses its value.
\<close>

fun first_success :: "'a option list \<Rightarrow> 'a option" where
  "first_success [] = None"
| "first_success (None # xs) = first_success xs"
| "first_success (Some v # xs) = Some v"



subsection \<open>The worlds of the examples\<close>

text \<open>
  Three files without EXIF data and without a date in their names, on a machine whose
  local time zone is UTC: \<open>a.jpg\<close> was modified at 10:00:00.25 on 2024-03-05,
  \<open>b.png\<close> at 10:00:00.75 and \<open>c.jpg\<close> at 10:00:01. The examples are worked
  for a platform whose \<open>strftime\<close> pads the year to four digits; their years have
  four digits, so that they are the same without padding.
\<close>

definition example_world :: world where
  "example_world =
     \<lparr>Image_open = (\<lambda>p. Raises),
      path_stat = (\<lambda>p. Inr \<lparr>st_birthtime = None,
                              st_mtime = (if name p = ''a.jpg'' then 170963280025 / 100
                                          else if name p = ''b.png'' then 170963280075 / 100
                                          else 1709632801)\<rparr>),
      strptime = (\<lambda>v fmt. Raises),
      decode_utf8_ignore = (\<lambda>b. b),
      fromtimestamp = (\<lambda>t.
        Inr \<lparr>year = 2024, month = 3, day = 5, hour = 10, minute = 0,
             second = (if t = 1709632801 then 1 else 0),
             microsecond = (if t = 170963280025 / 100 then 250000
                            else if t = 170963280075 / 100 then 750000 else 0)\<rparr>)\<rparr>"

definition example_files :: "path list" where
  "example_files =
     [\<lparr>anchor = ''/'', tail = [''in'', ''c.jpg'']\<rparr>,
      \<lparr>anchor = ''/'', tail = [''in'', ''b.png'']\<rparr>,
      \<lparr>anchor = ''/'', tail = [''in'', ''a.jpg'']\<rparr>]"

definition example_out :: path where
  "example_out = \<lparr>anchor = ''/'', tail = [''out'']\<rparr>"

definition example_fs :: "path list" where
  "example_fs = [\<lparr>anchor = ''/'', tail = [''out'', ''2024'', ''03'', ''05'', ''2024-03-05_10-00-00_0002.jpg'']\<rparr>]"

text \<open>The items of the plan for these three files, with the layout \<open>day\<close> and the
  format \<open>jpeg\<close>.\<close>

definition example_a :: plan_item where
  "example_a =
     \<lparr>source = \<lparr>anchor = ''/'', tail = [''in'', ''a.jpg'']\<rparr>,
      target = \<lparr>anchor = ''/'', tail = [''out'', ''2024'', ''03'', ''05'', ''2024-03-05_10-00-00_0001.jpg'']\<rparr>,
      capture_dt = \<lparr>year = 2024, month = 3, day = 5, hour = 10, minute = 0, second = 0, microsecond = 250000\<rparr>,
      needs_reencode = False\<rparr>"

definition example_b :: plan_item where
  "example_b =
     \<lparr>source = \<lparr>anchor = ''/'', tail = [''in'', ''b.png'']\<rparr>,
      target = \<lparr>anchor = ''/'', tail = [''out'', ''2024'', ''03'', ''05'', ''2024-03-05_10-00-00_0002__1.jpg'']\<rparr>,
      capture_dt = \<lparr>year = 2024, month = 3, day = 5, hour = 10, minute = 0, second = 0, microsecond = 750000\<rparr>,
      needs_reencode = True\<rparr>"

definition example_c :: plan_item where
  "example_c =
     \<lparr>source = \<lparr>anchor = ''/'', tail = [''in'', ''c.jpg'']\<rparr>,
      target = \<lparr>anchor = ''/'', tail = [''out'', ''2024'', ''03'', ''05'', ''2024-03-05_10-00-01_0001.jpg'']\<rparr>,
      capture_dt = \<lparr>year = 2024, month = 3, day = 5, hour = 10, minute = 0, second = 1, microsecond = 0\<rparr>,
      needs_reencode = False\<rparr>"

text \<open>A second world for the same three files: the images open and hold no EXIF
  data.\<close>

definition example_world_no_exif :: world where
  "example_world_no_exif = example_world\<lparr>Image_open := (\<lambda>p. Returns (Image (Returns [])))\<rparr>"

text \<open>The capture time of every file named \<open>a.jpg\<close> in \<open>example_world\<close>.\<close>

definition tie_date :: datetime where
  "tie_date = \<lparr>year = 2024, month = 3, day = 5, hour = 10, minute = 0, second = 0, microsecond = 250000\<rparr>"





definition in_dir :: "string \<Rightarrow> path" where
  "in_dir n = \<lparr>anchor = ''/'', tail = [''in'', n]\<rparr>"

section \<open>Properties\<close>

subsection \<open>Digits, separators and path components\<close>

lemma str_nat_nonempty: "str_nat n \<noteq> []"
  by (subst str_nat.simps) simp

lemma str_nat_digits: "c \<in> set (str_nat n) \<Longrightarrow> is_digit c"
proof (induction n arbitrary: c rule: str_nat.induct)
  case (1 n)
  show ?case
  proof (cases "n < 10")
    case True
    with "1.prems" show ?thesis
      by (simp add: str_nat.simps [of n] is_digit_digit_char)
  next
    case False
    with "1.prems" have "c \<in> set (str_nat (n div 10)) \<or> c = digit_char (n mod 10)"
      by (auto simp: str_nat.simps [of n])
    with False "1.IH" show ?thesis
      by (auto simp: is_digit_digit_char)
  qed
qed

lemma is_digit_zero: "is_digit (CHR ''0'')"
  by (simp add: is_digit_def)

lemma zfill_digits: "c \<in> set (zfill w (str_nat n)) \<Longrightarrow> is_digit c"
  using str_nat_digits is_digit_zero by (auto simp: zfill_def)

lemma zfill_nonempty: "zfill w (str_nat n) \<noteq> []"
  by (simp add: zfill_def str_nat_nonempty)

lemma nat_of_digits_zfill: "nat_of_digits (zfill w s) = nat_of_digits s"
proof -
  have "foldl (\<lambda>acc c. 10 * acc + digit_val c) 0 (replicate k (CHR ''0'')) = 0" for k
    by (induction k) (simp_all add: digit_val_def)
  then show ?thesis
    by (simp add: zfill_def nat_of_digits_def)
qed

lemma zfill_str_nat_inj: "zfill w (str_nat m) = zfill w' (str_nat n) \<Longrightarrow> m = n"
  by (metis nat_of_digits_zfill nat_of_digits_str_nat)

lemma split_sep_no_sep: "sep \<notin> set a \<Longrightarrow> split_sep sep a = [a]"
  by (induction a) auto

lemma split_sep_append: "sep \<notin> set a \<Longrightarrow> split_sep sep (a @ sep # r) = a # split_sep sep r"
  by (induction a) auto

lemma components_single: "valid_name a \<Longrightarrow> components a = [a]"
  by (simp add: components_def valid_name_def split_sep_no_sep)

lemma components_cons: "valid_name a \<Longrightarrow> components (a @ CHR ''/'' # r) = a # components r"
  by (simp add: components_def valid_name_def split_sep_append)

lemma truediv_name: "valid_name b \<Longrightarrow> truediv p b = p\<lparr>tail := tail p @ [b]\<rparr>"
  by (cases b) (auto simp: truediv_def components_single valid_name_def)

lemma strftime_base:
  "strftime yw dt ''%Y-%m-%d_%H-%M-%S'' =
     zfill yw (str_nat (year dt)) @ ''-'' @ zfill 2 (str_nat (month dt)) @ ''-'' @
     zfill 2 (str_nat (day dt)) @ ''_'' @ zfill 2 (str_nat (hour dt)) @ ''-'' @
     zfill 2 (str_nat (minute dt)) @ ''-'' @ zfill 2 (str_nat (second dt))"
  by (simp add: directive_def)

lemma strftime_day:
  "strftime yw dt ''%Y/%m/%d'' =
     zfill yw (str_nat (year dt)) @ ''/'' @ zfill 2 (str_nat (month dt)) @ ''/'' @
     zfill 2 (str_nat (day dt))"
  by (simp add: directive_def)

lemma strftime_month:
  "strftime yw dt ''%Y/%m'' = zfill yw (str_nat (year dt)) @ ''/'' @ zfill 2 (str_nat (month dt))"
  by (simp add: directive_def)

lemma strftime_year: "strftime yw dt ''%Y'' = zfill yw (str_nat (year dt))"
  by (simp add: directive_def)

lemma valid_name_zfill: "valid_name (zfill w (str_nat n))"
proof -
  have "\<not> is_digit (CHR ''/'')" "\<not> is_digit (CHR ''.'')"
    by (simp_all add: is_digit_def)
  then have "CHR ''/'' \<notin> set (zfill w (str_nat n))" "CHR ''.'' \<notin> set (zfill w (str_nat n))"
    using zfill_digits by blast+
  then show ?thesis
    using zfill_nonempty [of w n] by (auto simp: valid_name_def)
qed

declare strftime.simps [simp del]

lemma ext_cases:
  "OUTPUT_FORMAT_TO_EXT output_format = Some ext \<Longrightarrow>
   ext = ''.jpg'' \<or> ext = ''.png'' \<or> ext = ''.webp'' \<or> ext = ''.tiff''"
  by (auto simp: OUTPUT_FORMAT_TO_EXT_def split: if_splits)

lemma no_slash_zfill: "CHR ''/'' \<notin> set (zfill w (str_nat n))"
  using valid_name_zfill [of w n] by (simp add: valid_name_def)

lemma no_slash_format_04d: "CHR ''/'' \<notin> set (format_04d i)"
  by (simp add: format_04d_def no_slash_zfill)

lemma no_slash_strftime_base: "CHR ''/'' \<notin> set (strftime yw dt ''%Y-%m-%d_%H-%M-%S'')"
  by (simp add: strftime_base no_slash_zfill)

text \<open>The base name of a target is a valid path component.\<close>

lemma valid_base_name:
  assumes "OUTPUT_FORMAT_TO_EXT output_format = Some ext"
  shows "valid_name (strftime yw dt ''%Y-%m-%d_%H-%M-%S'' @ ''_'' @ format_04d idx @ ext)"
proof -
  have "CHR ''/'' \<notin> set ext"
    using ext_cases [OF assms] by auto
  moreover have "strftime yw dt ''%Y-%m-%d_%H-%M-%S'' @ ''_'' @ format_04d idx @ ext \<noteq> ''.''"
  proof
    assume e: "strftime yw dt ''%Y-%m-%d_%H-%M-%S'' @ ''_'' @ format_04d idx @ ext = ''.''"
    have "CHR ''_'' \<in> set (strftime yw dt ''%Y-%m-%d_%H-%M-%S'' @ ''_'' @ format_04d idx @ ext)"
      by simp
    then have "CHR ''_'' \<in> set ''.''"
      unfolding e .
    then show False
      by simp
  qed
  ultimately show ?thesis
    unfolding valid_name_def
    using no_slash_strftime_base [of yw dt] no_slash_format_04d [of idx] by simp
qed

lemma base_filename_strftime:
  "strftime yw dt ''%Y-%m-%d_%H-%M-%S'' @ ''_'' @ format_04d idx @ ext = base_filename yw dt idx ext"
  by (simp add: strftime_base base_filename_def year_digits_def two_digits_def)

lemma truediv_layout:
  "truediv output_dir (strftime yw dt ''%Y/%m/%d'') =
     output_dir\<lparr>tail := tail output_dir @ layout_dirs yw ''day'' dt\<rparr>"
  "truediv output_dir (strftime yw dt ''%Y/%m'') =
     output_dir\<lparr>tail := tail output_dir @ layout_dirs yw ''month'' dt\<rparr>"
  "truediv output_dir (strftime yw dt ''%Y'') =
     output_dir\<lparr>tail := tail output_dir @ layout_dirs yw ''year'' dt\<rparr>"
proof -
  have hd: "hd (zfill w (str_nat n) @ r) \<noteq> CHR ''/''" for w n r
    using no_slash_zfill [of w n] zfill_nonempty [of w n]
    by (cases "zfill w (str_nat n)") auto
  show "truediv output_dir (strftime yw dt ''%Y/%m/%d'') =
     output_dir\<lparr>tail := tail output_dir @ layout_dirs yw ''day'' dt\<rparr>"
    using hd [of yw "year dt"]
    by (simp add: truediv_def strftime_day layout_dirs_def year_digits_def two_digits_def
        components_cons components_single valid_name_zfill zfill_nonempty)
  show "truediv output_dir (strftime yw dt ''%Y/%m'') =
     output_dir\<lparr>tail := tail output_dir @ layout_dirs yw ''month'' dt\<rparr>"
    using hd [of yw "year dt"]
    by (simp add: truediv_def strftime_month layout_dirs_def year_digits_def two_digits_def
        components_cons components_single valid_name_zfill zfill_nonempty)
  show "truediv output_dir (strftime yw dt ''%Y'') =
     output_dir\<lparr>tail := tail output_dir @ layout_dirs yw ''year'' dt\<rparr>"
    using hd [of yw "year dt" "[]"]
    by (simp add: truediv_def strftime_year layout_dirs_def year_digits_def
        components_single valid_name_zfill zfill_nonempty)
qed

lemma build_target_path_eq:
  assumes "OUTPUT_FORMAT_TO_EXT output_format = Some target_ext"
  shows "build_target_path yw output_dir dt idx subfolders target_ext =
     output_dir\<lparr>tail := tail output_dir @ layout_dirs yw subfolders dt @ [base_filename yw dt idx target_ext]\<rparr>"
proof -
  have v: "valid_name (base_filename yw dt idx target_ext)"
    using valid_base_name [OF assms, of yw dt idx] unfolding base_filename_strftime .
  show ?thesis
    unfolding build_target_path_def Let_def base_filename_strftime
    by (simp add: truediv_layout truediv_name [OF v]) (simp add: layout_dirs_def)
qed

lemma str_nat_length: "10 ^ k \<le> n \<Longrightarrow> k < length (str_nat n)"
proof (induction k arbitrary: n)
  case 0
  then show ?case
    using str_nat_nonempty [of n] by simp
next
  case (Suc k)
  have "(10::nat) \<le> 10 * 10 ^ k"
    by simp
  also have "\<dots> \<le> n"
    using Suc.prems by simp
  finally have n: "\<not> n < 10"
    by simp
  from Suc.prems have "10 ^ k \<le> n div 10"
    by (simp add: less_eq_div_iff_mult_less_eq)
  then have "k < length (str_nat (n div 10))"
    by (rule Suc.IH)
  with n show ?case
    by (subst str_nat.simps) simp
qed

lemma str_nat_length_le: "0 < k \<Longrightarrow> n < 10 ^ k \<Longrightarrow> length (str_nat n) \<le> k"
proof (induction k arbitrary: n)
  case 0
  then show ?case by simp
next
  case (Suc k)
  show ?case
  proof (cases "n < 10")
    case True
    then show ?thesis
      by (subst str_nat.simps) simp
  next
    case False
    with Suc.prems have "0 < k"
      by (cases k) auto
    moreover from Suc.prems have "n div 10 < 10 ^ k"
      by (simp add: less_mult_imp_div_less)
    ultimately have "length (str_nat (n div 10)) \<le> k"
      by (rule Suc.IH)
    with False show ?thesis
      by (subst str_nat.simps) simp
  qed
qed

lemma zfill_long: "w \<le> length s \<Longrightarrow> zfill w s = s"
  by (simp add: zfill_def)

text \<open>
  C7. For every capture timestamp, sequence index, output root and layout policy (the
  extension being that of one of the four output formats), the target path is the
  output root, then the directories of the layout policy (\<open>YYYY/MM/DD\<close> for
  \<open>day\<close>, \<open>YYYY/MM\<close> for \<open>month\<close>, \<open>YYYY\<close> for \<open>year\<close>, none for \<open>none\<close> and
  for every unrecognised policy), then the base file name
  \<open>{timestamp:%Y-%m-%d_%H-%M-%S}_{sequence:04d}{extension}\<close>. The year \<open>YYYY\<close> is
  what \<open>%Y\<close> gives on the platform: the decimal year padded to the platform's width,
  which for the years from 1000 on is the decimal year itself on every platform (it
  has four digits up to the year 9999). The month, day, hour, minute and second have
  two digits, and a sequence index that is not negative has four digits at least.
\<close>

theorem build_target_path_layout:
  assumes "OUTPUT_FORMAT_TO_EXT output_format = Some target_ext"
  shows "anchor (build_target_path yw output_dir dt idx subfolders target_ext) = anchor output_dir \<and>
         tail (build_target_path yw output_dir dt idx subfolders target_ext) =
           tail output_dir
           @ (if subfolders = ''day'' then
                [strftime yw dt ''%Y'', two_digits (month dt), two_digits (day dt)]
              else if subfolders = ''month'' then [strftime yw dt ''%Y'', two_digits (month dt)]
              else if subfolders = ''year'' then [strftime yw dt ''%Y'']
              else [])
           @ [strftime yw dt ''%Y'' @ ''-'' @ two_digits (month dt) @ ''-'' @ two_digits (day dt)
              @ ''_'' @ two_digits (hour dt) @ ''-'' @ two_digits (minute dt) @ ''-''
              @ two_digits (second dt) @ ''_'' @ format_04d idx @ target_ext] \<and>
         strftime yw dt ''%Y'' = zfill yw (str_nat (year dt)) \<and>
         (yw \<le> 4 \<and> 1000 \<le> year dt \<longrightarrow> strftime yw dt ''%Y'' = str_nat (year dt)) \<and>
         (yw \<le> 4 \<and> 1000 \<le> year dt \<and> year dt \<le> 9999 \<longrightarrow> length (strftime yw dt ''%Y'') = 4) \<and>
         (0 \<le> idx \<longrightarrow> format_04d idx = four_digits (nat idx))"
proof -
  have y: "strftime yw dt ''%Y'' = zfill yw (str_nat (year dt))"
    by (rule strftime_year)
  have long: "3 < length (str_nat (year dt))" if "1000 \<le> year dt"
    using str_nat_length [of 3 "year dt"] that by simp
  have a: "strftime yw dt ''%Y'' = str_nat (year dt)" if "yw \<le> 4 \<and> 1000 \<le> year dt"
    using that long by (simp add: y zfill_long)
  have b: "length (strftime yw dt ''%Y'') = 4" if "yw \<le> 4 \<and> 1000 \<le> year dt \<and> year dt \<le> 9999"
    using that long str_nat_length_le [of 4 "year dt"] by (simp add: y zfill_long)
  have c: "format_04d idx = four_digits (nat idx)" if "0 \<le> idx"
    using that by (simp add: format_04d_def four_digits_def)
  have p: "anchor (build_target_path yw output_dir dt idx subfolders target_ext) = anchor output_dir"
    "tail (build_target_path yw output_dir dt idx subfolders target_ext) =
       tail output_dir
       @ (if subfolders = ''day'' then
            [strftime yw dt ''%Y'', two_digits (month dt), two_digits (day dt)]
          else if subfolders = ''month'' then [strftime yw dt ''%Y'', two_digits (month dt)]
          else if subfolders = ''year'' then [strftime yw dt ''%Y'']
          else [])
       @ [strftime yw dt ''%Y'' @ ''-'' @ two_digits (month dt) @ ''-'' @ two_digits (day dt)
          @ ''_'' @ two_digits (hour dt) @ ''-'' @ two_digits (minute dt) @ ''-''
          @ two_digits (second dt) @ ''_'' @ format_04d idx @ target_ext]"
    by (simp_all add: build_target_path_eq [OF assms] layout_dirs_def base_filename_def
        year_digits_def y)
  from p y a b c show ?thesis
    by blast
qed

theorem build_target_path_layout_witness:
  "OUTPUT_FORMAT_TO_EXT ''jpeg'' = Some ''.jpg'' \<and>
   tail (build_target_path 4 \<lparr>anchor = ''/'', tail = [''out'']\<rparr>
     \<lparr>year = 2024, month = 3, day = 5, hour = 10, minute = 0, second = 7, microsecond = 0\<rparr>
     2 ''day'' ''.jpg'') =
   [''out'', ''2024'', ''03'', ''05'', ''2024-03-05_10-00-07_0002.jpg''] \<and>
   tail (build_target_path 0 \<lparr>anchor = ''/'', tail = [''out'']\<rparr>
     \<lparr>year = 2024, month = 3, day = 5, hour = 10, minute = 0, second = 7, microsecond = 0\<rparr>
     2 ''weekly'' ''.jpg'') =
   [''out'', ''2024-03-05_10-00-07_0002.jpg''] \<and>
   tail (build_target_path 0 \<lparr>anchor = [], tail = []\<rparr>
     \<lparr>year = 999, month = 1, day = 2, hour = 3, minute = 4, second = 5, microsecond = 0\<rparr>
     1 ''day'' ''.jpg'') =
   [''999'', ''01'', ''02'', ''999-01-02_03-04-05_0001.jpg''] \<and>
   tail (build_target_path 4 \<lparr>anchor = [], tail = []\<rparr>
     \<lparr>year = 999, month = 1, day = 2, hour = 3, minute = 4, second = 5, microsecond = 0\<rparr>
     1 ''day'' ''.jpg'') =
   [''0999'', ''01'', ''02'', ''0999-01-02_03-04-05_0001.jpg'']"
proof -
  have h: "OUTPUT_FORMAT_TO_EXT ''jpeg'' = Some ''.jpg''"
    by (simp add: OUTPUT_FORMAT_TO_EXT_def)
  have d: "zfill 4 (str_nat 2024) = ''2024''" "zfill 0 (str_nat 2024) = ''2024''"
    "zfill 0 (str_nat 999) = ''999''" "zfill 4 (str_nat 999) = ''0999''"
    "two_digits 3 = ''03''" "two_digits 5 = ''05''"
    "two_digits 10 = ''10''" "two_digits 0 = ''00''" "two_digits 7 = ''07''"
    "two_digits (Suc 0) = ''01''" "two_digits 2 = ''02''" "two_digits 4 = ''04''"
    "format_04d 2 = ''0002''" "format_04d 1 = ''0001''"
    by code_simp+
  show ?thesis
    using build_target_path_layout [OF h, of 4 "\<lparr>anchor = ''/'', tail = [''out'']\<rparr>"
        "\<lparr>year = 2024, month = 3, day = 5, hour = 10, minute = 0, second = 7, microsecond = 0\<rparr>"
        2 "''day''"]
      build_target_path_layout [OF h, of 0 "\<lparr>anchor = ''/'', tail = [''out'']\<rparr>"
        "\<lparr>year = 2024, month = 3, day = 5, hour = 10, minute = 0, second = 7, microsecond = 0\<rparr>"
        2 "''weekly''"]
      build_target_path_layout [OF h, of 0 "\<lparr>anchor = [], tail = []\<rparr>"
        "\<lparr>year = 999, month = 1, day = 2, hour = 3, minute = 4, second = 5, microsecond = 0\<rparr>"
        1 "''day''"]
      build_target_path_layout [OF h, of 4 "\<lparr>anchor = [], tail = []\<rparr>"
        "\<lparr>year = 999, month = 1, day = 2, hour = 3, minute = 4, second = 5, microsecond = 0\<rparr>"
        1 "''day''"]
    by (simp add: h d strftime_year)
qed

subsection \<open>Stem and suffix of a name\<close>


lemma rfind_last: "c \<notin> set b \<Longrightarrow> rfind c (a @ c # b) = Some (length a)"
proof -
  assume "c \<notin> set b"
  then have "takeWhile (\<lambda>x. x \<noteq> c) (rev b @ c # rev a) = rev b"
    by (auto simp: takeWhile_tail)
  then show ?thesis
    by (simp add: rfind_def)
qed


lemma name_parts_dot:
  assumes "CHR ''.'' \<notin> set b"
  shows "name_stem (a @ CHR ''.'' # b) = (if a \<noteq> [] \<and> b \<noteq> [] then a else a @ CHR ''.'' # b)"
    and "name_suffix (a @ CHR ''.'' # b) = (if a \<noteq> [] \<and> b \<noteq> [] then CHR ''.'' # b else [])"
  using assms by (auto simp: name_stem_def name_suffix_def rfind_last)

lemma stem_suffix_name: "name_stem n @ name_suffix n = n"
  by (auto simp: name_stem_def name_suffix_def split: option.splits)



subsection \<open>What \<open>ensure_unique\<close> returns\<close>

lemma valid_candidate:
  assumes "valid_name (name p)"
  shows "valid_name (stem p @ ''__'' @ str_nat k @ suffix p)"
proof -
  have "set (stem p) \<union> set (suffix p) = set (name p)"
    using stem_suffix_name [of "name p"] unfolding stem_def suffix_def
    by (metis set_append)
  with assms have "CHR ''/'' \<notin> set (stem p)" "CHR ''/'' \<notin> set (suffix p)"
    by (auto simp: valid_name_def)
  moreover have "CHR ''/'' \<notin> set (str_nat k)"
    using str_nat_digits [of "CHR ''/''" k] by (auto simp: is_digit_def)
  moreover have "stem p @ ''__'' @ str_nat k @ suffix p \<noteq> ''.''"
  proof
    assume e: "stem p @ ''__'' @ str_nat k @ suffix p = ''.''"
    have "CHR ''_'' \<in> set (stem p @ ''__'' @ str_nat k @ suffix p)"
      by simp
    then have "CHR ''_'' \<in> set ''.''"
      unfolding e .
    then show False
      by simp
  qed
  ultimately show ?thesis
    by (simp add: valid_name_def)
qed

lemma with_name_candidate:
  assumes "valid_name (name p)"
  shows "with_name p (stem p @ ''__'' @ str_nat k @ suffix p) = Inr (numbered p k)"
  using assms valid_candidate [OF assms, of k]
  by (simp add: with_name_def numbered_def valid_name_def)

lemma ensure_unique_loop_first:
  assumes "valid_name (name p)"
  shows "\<exists>k\<ge>c. ensure_unique_loop fs p (stem p) (suffix p) c = Inr (numbered p k) \<and>
           numbered p k \<notin> set fs \<and> (\<forall>j. c \<le> j \<and> j < k \<longrightarrow> numbered p j \<in> set fs)"
  using assms
proof (induction fs p "stem p" "suffix p" c rule: ensure_unique_loop.induct)
  case (1 fs p counter)
  note w = with_name_candidate [OF "1.prems", of counter]
  have unf: "ensure_unique_loop fs p (stem p) (suffix p) counter =
      (if numbered p counter \<notin> set fs then Inr (numbered p counter)
       else ensure_unique_loop fs p (stem p) (suffix p) (counter + 1))"
    by (subst ensure_unique_loop.simps) (simp only: w sum.case)
  show ?case
  proof (cases "numbered p counter \<in> set fs")
    case False
    then have "ensure_unique_loop fs p (stem p) (suffix p) counter = Inr (numbered p counter)"
      by (simp add: unf)
    with False show ?thesis
      by (intro exI [of _ counter]) auto
  next
    case True
    then have step: "ensure_unique_loop fs p (stem p) (suffix p) counter =
        ensure_unique_loop fs p (stem p) (suffix p) (counter + 1)"
      by (simp add: unf)
    from "1.hyps" [OF w _ "1.prems"] True
    obtain k where k: "counter + 1 \<le> k"
      "ensure_unique_loop fs p (stem p) (suffix p) (counter + 1) = Inr (numbered p k)"
      "numbered p k \<notin> set fs" "\<forall>j. counter + 1 \<le> j \<and> j < k \<longrightarrow> numbered p j \<in> set fs"
      by auto
    have "\<forall>j. counter \<le> j \<and> j < k \<longrightarrow> numbered p j \<in> set fs"
    proof (intro allI impI)
      fix j
      assume "counter \<le> j \<and> j < k"
      then have "j = counter \<or> (counter + 1 \<le> j \<and> j < k)"
        by auto
      with True k(4) show "numbered p j \<in> set fs"
        by auto
    qed
    with k step show ?thesis
      by (intro exI [of _ k]) simp
  qed
qed

lemma ensure_unique_spec:
  assumes "valid_name (name p)"
  shows "(p \<notin> set fs \<longrightarrow> ensure_unique fs p = Inr p) \<and>
         (p \<in> set fs \<longrightarrow>
           (\<exists>k\<ge>1. ensure_unique fs p = Inr (numbered p k) \<and> numbered p k \<notin> set fs \<and>
              (\<forall>j. 1 \<le> j \<and> j < k \<longrightarrow> numbered p j \<in> set fs)))"
  using ensure_unique_loop_first [OF assms, of 1 fs] by (simp add: ensure_unique_def)

subsection \<open>The names of computed target paths\<close>

lemma base_filename_ext: "base_filename yw dt idx ext = base_filename yw dt idx [] @ ext"
  by (simp add: base_filename_def)

lemma base_filename_nonempty: "base_filename yw dt idx [] \<noteq> []"
  by (simp add: base_filename_def)

lemma ext_shape:
  assumes "OUTPUT_FORMAT_TO_EXT output_format = Some ext"
  shows "\<exists>e. ext = CHR ''.'' # e \<and> e \<noteq> [] \<and> CHR ''.'' \<notin> set e \<and> last e \<noteq> CHR ''.''"
  using ext_cases [OF assms] by auto

lemma name_build_target_path:
  assumes "OUTPUT_FORMAT_TO_EXT output_format = Some target_ext"
  shows "name (build_target_path yw output_dir dt idx subfolders target_ext) =
           base_filename yw dt idx target_ext"
  by (simp add: build_target_path_eq [OF assms] name_def)

lemma stem_suffix_build_target_path:
  assumes "OUTPUT_FORMAT_TO_EXT output_format = Some target_ext"
  shows "stem (build_target_path yw output_dir dt idx subfolders target_ext) = base_filename yw dt idx []"
    and "suffix (build_target_path yw output_dir dt idx subfolders target_ext) = target_ext"
proof -
  obtain e where e: "target_ext = CHR ''.'' # e" "e \<noteq> []" "CHR ''.'' \<notin> set e"
    using ext_shape [OF assms] by blast
  have n: "name (build_target_path yw output_dir dt idx subfolders target_ext) =
      base_filename yw dt idx [] @ CHR ''.'' # e"
    using name_build_target_path [OF assms, of yw output_dir dt idx subfolders] e(1)
      base_filename_ext [of yw dt idx target_ext] by simp
  show "stem (build_target_path yw output_dir dt idx subfolders target_ext) = base_filename yw dt idx []"
    unfolding stem_def n using name_parts_dot(1) [OF e(3), of "base_filename yw dt idx []"]
      e(2) base_filename_nonempty [of yw dt idx] by simp
  show "suffix (build_target_path yw output_dir dt idx subfolders target_ext) = target_ext"
    unfolding suffix_def n using name_parts_dot(2) [OF e(3), of "base_filename yw dt idx []"]
      e(1,2) base_filename_nonempty [of yw dt idx] by simp
qed

lemma valid_name_build_target_path:
  assumes "OUTPUT_FORMAT_TO_EXT output_format = Some target_ext"
  shows "valid_name (name (build_target_path yw output_dir dt idx subfolders target_ext))"
  using valid_base_name [OF assms, of yw dt idx]
  unfolding base_filename_strftime name_build_target_path [OF assms] .

lemma last_name_build_target_path:
  assumes "OUTPUT_FORMAT_TO_EXT output_format = Some target_ext"
  shows "last (name (build_target_path yw output_dir dt idx subfolders target_ext)) \<noteq> CHR ''.''"
proof -
  obtain e where e: "target_ext = CHR ''.'' # e" "e \<noteq> []" "last e \<noteq> CHR ''.''"
    using ext_shape [OF assms] by blast
  then show ?thesis
    using name_build_target_path [OF assms, of yw output_dir dt idx subfolders]
      base_filename_ext [of yw dt idx target_ext] by simp
qed






subsection \<open>The example plan\<close>

lemma example_capture:
  "determine_capture_datetime example_world \<lparr>anchor = ''/'', tail = [''in'', ''a.jpg'']\<rparr> =
     Inr \<lparr>year = 2024, month = 3, day = 5, hour = 10, minute = 0, second = 0, microsecond = 250000\<rparr>"
  by (simp add: determine_capture_datetime_def example_world_def get_file_times_def name_def
      try_parse_from_name_def DATETIME_NAME_PATTERNS_def name_pattern_def re_d_def)

lemma example_capture_b:
  "determine_capture_datetime example_world \<lparr>anchor = ''/'', tail = [''in'', ''b.png'']\<rparr> =
     Inr \<lparr>year = 2024, month = 3, day = 5, hour = 10, minute = 0, second = 0, microsecond = 750000\<rparr>"
  by (simp add: determine_capture_datetime_def example_world_def get_file_times_def name_def
      try_parse_from_name_def DATETIME_NAME_PATTERNS_def name_pattern_def re_d_def)

lemma example_capture_c:
  "determine_capture_datetime example_world \<lparr>anchor = ''/'', tail = [''in'', ''c.jpg'']\<rparr> =
     Inr \<lparr>year = 2024, month = 3, day = 5, hour = 10, minute = 0, second = 1, microsecond = 0\<rparr>"
  by (simp add: determine_capture_datetime_def example_world_def get_file_times_def name_def
      try_parse_from_name_def DATETIME_NAME_PATTERNS_def name_pattern_def re_d_def)

lemma example_items:
  "build_plan example_world True ''.jpg'' example_files =
     Inr [example_c\<lparr>target := Path_empty\<rparr>, example_b\<lparr>target := Path_empty\<rparr>,
          example_a\<lparr>target := Path_empty\<rparr>]"
proof -
  have "lower (suffix \<lparr>anchor = ''/'', tail = [''in'', ''a.jpg'']\<rparr>) = ''.jpg''"
    "lower (suffix \<lparr>anchor = ''/'', tail = [''in'', ''b.png'']\<rparr>) = ''.png''"
    "lower (suffix \<lparr>anchor = ''/'', tail = [''in'', ''c.jpg'']\<rparr>) = ''.jpg''"
    by code_simp+
  then show ?thesis
    by (simp add: example_files_def initial_item_def example_capture example_capture_b
        example_capture_c example_a_def example_b_def example_c_def)
qed

lemma example_sort:
  "sort_key sort_key_of
     [example_c\<lparr>target := Path_empty\<rparr>, example_b\<lparr>target := Path_empty\<rparr>,
      example_a\<lparr>target := Path_empty\<rparr>] =
     [example_a\<lparr>target := Path_empty\<rparr>, example_b\<lparr>target := Path_empty\<rparr>,
      example_c\<lparr>target := Path_empty\<rparr>]"
proof -
  have k: "sort_key_of (example_a\<lparr>target := Path_empty\<rparr>) = ((2024, 3, 5, 10, 0, 0, 250000), ''a.jpg'')"
    "sort_key_of (example_b\<lparr>target := Path_empty\<rparr>) = ((2024, 3, 5, 10, 0, 0, 750000), ''b.png'')"
    "sort_key_of (example_c\<lparr>target := Path_empty\<rparr>) = ((2024, 3, 5, 10, 0, 1, 0), ''c.jpg'')"
    by (simp_all add: sort_key_of_def dt_key_def name_def example_a_def example_b_def example_c_def)
  show ?thesis
    by (simp add: k)
qed

lemma example_digits:
  "year_digits 4 2024 = ''2024''" "two_digits 3 = ''03''" "two_digits 5 = ''05''"
  "two_digits 10 = ''10''" "two_digits 0 = ''00''" "two_digits (Suc 0) = ''01''"
  "format_04d 1 = ''0001''" "format_04d 2 = ''0002''"
  by code_simp+

lemma example_paths:
  "build_target_path 4 example_out (capture_dt example_a) 1 ''day'' ''.jpg'' =
     \<lparr>anchor = ''/'', tail = [''out'', ''2024'', ''03'', ''05'', ''2024-03-05_10-00-00_0001.jpg'']\<rparr>"
  "build_target_path 4 example_out (capture_dt example_b) 2 ''day'' ''.jpg'' =
     \<lparr>anchor = ''/'', tail = [''out'', ''2024'', ''03'', ''05'', ''2024-03-05_10-00-00_0002.jpg'']\<rparr>"
  "build_target_path 4 example_out (capture_dt example_c) 1 ''day'' ''.jpg'' =
     \<lparr>anchor = ''/'', tail = [''out'', ''2024'', ''03'', ''05'', ''2024-03-05_10-00-01_0001.jpg'']\<rparr>"
proof -
  have h: "OUTPUT_FORMAT_TO_EXT ''jpeg'' = Some ''.jpg''"
    by (simp add: OUTPUT_FORMAT_TO_EXT_def)
  show "build_target_path 4 example_out (capture_dt example_a) 1 ''day'' ''.jpg'' =
     \<lparr>anchor = ''/'', tail = [''out'', ''2024'', ''03'', ''05'', ''2024-03-05_10-00-00_0001.jpg'']\<rparr>"
    by (simp add: build_target_path_eq [OF h] layout_dirs_def base_filename_def example_digits
        example_out_def example_a_def)
  show "build_target_path 4 example_out (capture_dt example_b) 2 ''day'' ''.jpg'' =
     \<lparr>anchor = ''/'', tail = [''out'', ''2024'', ''03'', ''05'', ''2024-03-05_10-00-00_0002.jpg'']\<rparr>"
    by (simp add: build_target_path_eq [OF h] layout_dirs_def base_filename_def example_digits
        example_out_def example_b_def)
  show "build_target_path 4 example_out (capture_dt example_c) 1 ''day'' ''.jpg'' =
     \<lparr>anchor = ''/'', tail = [''out'', ''2024'', ''03'', ''05'', ''2024-03-05_10-00-01_0001.jpg'']\<rparr>"
    by (simp add: build_target_path_eq [OF h] layout_dirs_def base_filename_def example_digits
        example_out_def example_c_def)
qed

lemma example_unique:
  "ensure_unique example_fs
     \<lparr>anchor = ''/'', tail = [''out'', ''2024'', ''03'', ''05'', ''2024-03-05_10-00-00_0001.jpg'']\<rparr> =
   Inr \<lparr>anchor = ''/'', tail = [''out'', ''2024'', ''03'', ''05'', ''2024-03-05_10-00-00_0001.jpg'']\<rparr>"
  "ensure_unique example_fs
     \<lparr>anchor = ''/'', tail = [''out'', ''2024'', ''03'', ''05'', ''2024-03-05_10-00-00_0002.jpg'']\<rparr> =
   Inr \<lparr>anchor = ''/'', tail = [''out'', ''2024'', ''03'', ''05'', ''2024-03-05_10-00-00_0002__1.jpg'']\<rparr>"
  "ensure_unique example_fs
     \<lparr>anchor = ''/'', tail = [''out'', ''2024'', ''03'', ''05'', ''2024-03-05_10-00-01_0001.jpg'']\<rparr> =
   Inr \<lparr>anchor = ''/'', tail = [''out'', ''2024'', ''03'', ''05'', ''2024-03-05_10-00-01_0001.jpg'']\<rparr>"
  by code_simp+

lemma example_targets:
  "ensure_unique example_fs (build_target_path 4 example_out (capture_dt example_a) 1 ''day'' ''.jpg'') =
     Inr (target example_a)"
  "ensure_unique example_fs (build_target_path 4 example_out (capture_dt example_b) 2 ''day'' ''.jpg'') =
     Inr (target example_b)"
  "ensure_unique example_fs (build_target_path 4 example_out (capture_dt example_c) 1 ''day'' ''.jpg'') =
     Inr (target example_c)"
  unfolding example_paths example_unique
  by (simp_all add: example_a_def example_b_def example_c_def)

lemma example_assign:
  "assign_targets 4 example_fs example_out ''day'' ''.jpg'' None 0
     [example_a\<lparr>target := Path_empty\<rparr>, example_b\<lparr>target := Path_empty\<rparr>,
      example_c\<lparr>target := Path_empty\<rparr>] =
     Inr [example_a, example_b, example_c]"
proof -
  have s: "replace_microsecond_0 (capture_dt example_a) = replace_microsecond_0 (capture_dt example_b)"
    "replace_microsecond_0 (capture_dt example_c) \<noteq> replace_microsecond_0 (capture_dt example_b)"
    by (simp_all add: replace_microsecond_0_def example_a_def example_b_def example_c_def)
  have n: "next_seq None 0 (replace_microsecond_0 (capture_dt example_a)) = 1"
    "next_seq (Some (replace_microsecond_0 (capture_dt example_a))) 1
       (replace_microsecond_0 (capture_dt example_b)) = 2"
    "next_seq (Some (replace_microsecond_0 (capture_dt example_b))) 2
       (replace_microsecond_0 (capture_dt example_c)) = 1"
    using s by (simp_all add: next_seq_def)
  have l: "next_last l c = Some c" for l c
    by (auto simp: next_last_def)
  show ?thesis
    by (simp add: Let_def l n example_targets)
qed

lemma example_plan:
  "main_plan example_world 4 example_fs example_out ''jpeg'' ''day'' True example_files =
     Inr [example_a, example_b, example_c]"
proof -
  have h: "OUTPUT_FORMAT_TO_EXT ''jpeg'' = Some ''.jpg''"
    by (simp add: OUTPUT_FORMAT_TO_EXT_def)
  have ne: "(example_files = []) = False"
    by (simp add: example_files_def)
  show ?thesis
    unfolding main_plan_def Let_def
    by (simp only: h ne option.case if_False example_items sum.case example_sort example_assign)
qed

subsection \<open>The shape of a plan\<close>

lemma next_last_Some: "next_last last_second current_second = Some current_second"
  by (auto simp: next_last_def)

text \<open>The second loop changes nothing but the targets.\<close>

lemma assign_targets_items:
  "assign_targets yw fs output_dir subfolders target_ext l s items = Inr res \<Longrightarrow>
   list_all2 (\<lambda>r item. \<exists>t. r = item\<lparr>target := t\<rparr>) res items"
proof (induction items arbitrary: l s res)
  case Nil
  then show ?case by simp
next
  case (Cons item items)
  then show ?case
    by (auto simp: Let_def split: sum.splits)
qed

text \<open>Each target is \<open>ensure_unique\<close> of the path built with the item's sequence
  number.\<close>

lemma assign_targets_nth:
  "assign_targets yw fs output_dir subfolders target_ext l s items = Inr res \<Longrightarrow>
   i < length items \<Longrightarrow>
   ensure_unique fs (build_target_path yw output_dir (capture_dt (items ! i))
     (sequence_loop l s items ! i) subfolders target_ext) = Inr (target (res ! i))"
proof (induction items arbitrary: l s res i)
  case Nil
  then show ?case by simp
next
  case (Cons item items)
  show ?case
  proof (cases i)
    case 0
    with Cons.prems show ?thesis
      by (auto simp: Let_def split: sum.splits)
  next
    case (Suc j)
    with Cons.prems Cons.IH show ?thesis
      by (auto simp: Let_def split: sum.splits)
  qed
qed

text \<open>With the extension of an output format, the second loop raises nothing.\<close>

lemma ensure_unique_returns:
  assumes "OUTPUT_FORMAT_TO_EXT output_format = Some target_ext"
  shows "\<exists>q. ensure_unique fs (build_target_path yw output_dir dt idx subfolders target_ext) = Inr q"
  using ensure_unique_spec [OF valid_name_build_target_path [OF assms], of yw output_dir dt idx subfolders fs]
  by (cases "build_target_path yw output_dir dt idx subfolders target_ext \<in> set fs") auto

lemma assign_targets_returns:
  assumes "OUTPUT_FORMAT_TO_EXT output_format = Some target_ext"
  shows "\<exists>res. assign_targets yw fs output_dir subfolders target_ext l s items = Inr res"
proof (induction items arbitrary: l s)
  case Nil
  show ?case by simp
next
  case (Cons item items)
  obtain q where "ensure_unique fs (build_target_path yw output_dir (capture_dt item)
      (next_seq l s (replace_microsecond_0 (capture_dt item))) subfolders target_ext) = Inr q"
    using ensure_unique_returns [OF assms] by blast
  moreover obtain res where "assign_targets yw fs output_dir subfolders target_ext
      (next_last l (replace_microsecond_0 (capture_dt item)))
      (next_seq l s (replace_microsecond_0 (capture_dt item))) items = Inr res"
    using Cons.IH by blast
  ultimately show ?case
    by (simp add: Let_def)
qed

lemma sequence_loop_cong:
  "map capture_dt xs = map capture_dt ys \<Longrightarrow> sequence_loop l s xs = sequence_loop l s ys"
proof (induction xs arbitrary: ys l s)
  case Nil
  then show ?case by simp
next
  case (Cons x xs)
  then obtain y ys' where "ys = y # ys'" "capture_dt x = capture_dt y"
    "map capture_dt xs = map capture_dt ys'"
    by (cases ys) auto
  with Cons.IH show ?case
    by (simp add: Let_def)
qed

text \<open>
  The \<open>except\<close> clause of the first loop changes nothing: when
  \<open>determine_capture_datetime\<close> raises, it is \<open>get_file_times\<close> that raised, and
  it raises again.
\<close>

lemma determine_Inl:
  "determine_capture_datetime w p = Inl e \<Longrightarrow> get_file_times w p = Inl e"
  by (auto simp: determine_capture_datetime_def split: option.splits)

lemma initial_item_eq:
  "initial_item w copy_unchanged target_ext p =
     (case determine_capture_datetime w p of
        Inl e \<Rightarrow> Inl e
      | Inr dt \<Rightarrow> Inr (resolved_item w copy_unchanged target_ext p))"
  by (auto simp: initial_item_def resolved_item_def dest: determine_Inl split: sum.splits)

text \<open>The first loop returns a plan exactly when the capture time of every input file
  is resolved.\<close>

lemma build_plan_resolved:
  "\<forall>p\<in>set input_files. \<exists>dt. determine_capture_datetime w p = Inr dt \<Longrightarrow>
   build_plan w copy_unchanged target_ext input_files =
     Inr (map (resolved_item w copy_unchanged target_ext) input_files)"
  by (induction input_files) (auto simp: initial_item_eq)

lemma build_plan_InrD:
  "build_plan w copy_unchanged target_ext input_files = Inr items \<Longrightarrow>
   (\<forall>p\<in>set input_files. \<exists>dt. determine_capture_datetime w p = Inr dt) \<and>
   items = map (resolved_item w copy_unchanged target_ext) input_files"
  by (induction input_files arbitrary: items) (auto simp: initial_item_eq split: sum.splits)

lemma build_plan_Inr:
  "build_plan w copy_unchanged target_ext input_files = Inr items \<longleftrightarrow>
     (\<forall>p\<in>set input_files. \<exists>dt. determine_capture_datetime w p = Inr dt) \<and>
     items = map (resolved_item w copy_unchanged target_ext) input_files"
  using build_plan_resolved build_plan_InrD by blast

lemma main_plan_Inr:
  assumes "main_plan w yw fs output_dir output_format subfolders copy_unchanged input_files = Inr plan"
  shows "\<exists>target_ext. OUTPUT_FORMAT_TO_EXT output_format = Some target_ext \<and> input_files \<noteq> [] \<and>
           (\<forall>p\<in>set input_files. \<exists>dt. determine_capture_datetime w p = Inr dt) \<and>
           assign_targets yw fs output_dir subfolders target_ext None 0
             (sorted_items w copy_unchanged target_ext input_files) = Inr plan"
proof -
  from assms obtain target_ext items where
    ext: "OUTPUT_FORMAT_TO_EXT output_format = Some target_ext" and ne: "input_files \<noteq> []"
    and b: "build_plan w copy_unchanged target_ext input_files = Inr items"
    and a: "assign_targets yw fs output_dir subfolders target_ext None 0
              (sort_key sort_key_of items) = Inr plan"
    by (auto simp: main_plan_def Let_def split: option.splits if_splits sum.splits)
  from b have "\<forall>p\<in>set input_files. \<exists>dt. determine_capture_datetime w p = Inr dt"
    and "items = map (resolved_item w copy_unchanged target_ext) input_files"
    unfolding build_plan_Inr by simp_all
  with ext ne a show ?thesis
    by (auto simp: sorted_items_def)
qed

lemma main_plan_returns:
  assumes "OUTPUT_FORMAT_TO_EXT output_format = Some target_ext" and "input_files \<noteq> []"
    and "\<forall>p\<in>set input_files. \<exists>dt. determine_capture_datetime w p = Inr dt"
  shows "\<exists>plan. main_plan w yw fs output_dir output_format subfolders copy_unchanged input_files = Inr plan"
proof -
  have "build_plan w copy_unchanged target_ext input_files =
      Inr (map (resolved_item w copy_unchanged target_ext) input_files)"
    unfolding build_plan_Inr using assms(3) by simp
  then show ?thesis
    using assms(1,2) assign_targets_returns [OF assms(1), of yw fs output_dir subfolders None 0]
    by (simp add: main_plan_def Let_def)
qed

lemma plan_items:
  assumes "main_plan w yw fs output_dir output_format subfolders copy_unchanged input_files = Inr plan"
    and "OUTPUT_FORMAT_TO_EXT output_format = Some target_ext"
  shows "list_all2 (\<lambda>r item. \<exists>t. r = item\<lparr>target := t\<rparr>) plan
           (sorted_items w copy_unchanged target_ext input_files)"
  using main_plan_Inr [OF assms(1)] assms(2) assign_targets_items by fastforce

lemma plan_field_maps:
  assumes "list_all2 (\<lambda>r item. \<exists>t. r = item\<lparr>target := t\<rparr>) plan items"
  shows "map source plan = map source items" and "map capture_dt plan = map capture_dt items"
    and "map needs_reencode plan = map needs_reencode items"
    and "map sort_key_of plan = map sort_key_of items"
  using assms by (induction rule: list_all2_induct) (auto simp: sort_key_of_def)

lemma list_all2_member:
  "list_all2 P xs ys \<Longrightarrow> x \<in> set xs \<Longrightarrow> \<exists>y\<in>set ys. P x y"
  by (induction rule: list_all2_induct) auto

text \<open>
  C6. For every item of every plan, \<open>needs_reencode\<close> is false exactly when
  copy-unchanged is on and the lower-cased extension of the source is the canonical
  extension of the output format.
\<close>

theorem needs_reencode_iff:
  assumes "main_plan w yw fs output_dir output_format subfolders copy_unchanged input_files = Inr plan"
    and "item \<in> set plan"
  shows "(\<not> needs_reencode item) =
           (copy_unchanged \<and> OUTPUT_FORMAT_TO_EXT output_format = Some (lower (suffix (source item))))"
proof -
  obtain target_ext where ext: "OUTPUT_FORMAT_TO_EXT output_format = Some target_ext"
    using main_plan_Inr [OF assms(1)] by blast
  from assms(2) obtain item0 t where
    "item0 \<in> set (sorted_items w copy_unchanged target_ext input_files)" "item = item0\<lparr>target := t\<rparr>"
    using list_all2_member [OF plan_items [OF assms(1) ext]] by blast
  then obtain p where "item = (resolved_item w copy_unchanged target_ext p)\<lparr>target := t\<rparr>"
    by (auto simp: sorted_items_def)
  with ext show ?thesis
    by (auto simp: resolved_item_def)
qed

theorem needs_reencode_iff_witness:
  "main_plan example_world 4 example_fs example_out ''jpeg'' ''day'' True example_files =
     Inr [example_a, example_b, example_c] \<and>
   example_b \<in> set [example_a, example_b, example_c] \<and>
   needs_reencode example_b \<and> lower (suffix (source example_b)) = ''.png'' \<and>
   OUTPUT_FORMAT_TO_EXT ''jpeg'' = Some ''.jpg'' \<and>
   example_a \<in> set [example_a, example_b, example_c] \<and>
   \<not> needs_reencode example_a \<and> lower (suffix (source example_a)) = ''.jpg''"
proof -
  have "lower (suffix \<lparr>anchor = ''/'', tail = [''in'', ''a.jpg'']\<rparr>) = ''.jpg''"
    "lower (suffix \<lparr>anchor = ''/'', tail = [''in'', ''b.png'']\<rparr>) = ''.png''"
    by code_simp+
  then have sa: "lower (suffix (source example_a)) = ''.jpg''"
    and sb: "lower (suffix (source example_b)) = ''.png''"
    by (simp_all add: example_a_def example_b_def)
  have h: "OUTPUT_FORMAT_TO_EXT ''jpeg'' = Some ''.jpg''"
    by (simp add: OUTPUT_FORMAT_TO_EXT_def)
  have "(\<not> needs_reencode example_a) =
      (True \<and> OUTPUT_FORMAT_TO_EXT ''jpeg'' = Some (lower (suffix (source example_a))))"
    by (rule needs_reencode_iff [OF example_plan]) simp
  moreover have "(\<not> needs_reencode example_b) =
      (True \<and> OUTPUT_FORMAT_TO_EXT ''jpeg'' = Some (lower (suffix (source example_b))))"
    by (rule needs_reencode_iff [OF example_plan]) simp
  ultimately show ?thesis
    using example_plan sa sb h by simp
qed

subsection \<open>The order of a plan\<close>

lemma dt_key_eq_iff: "dt_key a = dt_key b \<longleftrightarrow> a = b"
  by (cases a; cases b) (auto simp: dt_key_def)

lemma lex_le_fst: "((a::'a::linorder), (b::'b::linorder)) \<le> (c, d) \<Longrightarrow> a \<le> c"
  by (auto simp: less_eq_prod_def)

lemma lex_le_snd: "((a::'a::linorder), (b::'b::linorder)) \<le> (a, d) \<Longrightarrow> b \<le> d"
  by (auto simp: less_eq_prod_def)

lemma sorted_plan:
  assumes "main_plan w yw fs output_dir output_format subfolders copy_unchanged input_files = Inr plan"
  shows "sorted (map sort_key_of plan)"
proof -
  obtain target_ext where ext: "OUTPUT_FORMAT_TO_EXT output_format = Some target_ext"
    using main_plan_Inr [OF assms] by blast
  have "map sort_key_of plan = map sort_key_of (sorted_items w copy_unchanged target_ext input_files)"
    using plan_field_maps(4) [OF plan_items [OF assms ext]] .
  then show ?thesis
    by (simp add: sorted_items_def)
qed

lemma plan_sources:
  assumes "main_plan w yw fs output_dir output_format subfolders copy_unchanged input_files = Inr plan"
  shows "mset (map source plan) = mset input_files"
    and "\<forall>item\<in>set plan. determine_capture_datetime w (source item) = Inr (capture_dt item)"
proof -
  obtain target_ext where ext: "OUTPUT_FORMAT_TO_EXT output_format = Some target_ext"
    and res: "\<forall>p\<in>set input_files. \<exists>dt. determine_capture_datetime w p = Inr dt"
    using main_plan_Inr [OF assms] by blast
  note all2 = plan_items [OF assms ext]
  have "mset (map source (sorted_items w copy_unchanged target_ext input_files)) = mset input_files"
  proof -
    have "mset (map source (sorted_items w copy_unchanged target_ext input_files)) =
        image_mset source (mset (map (resolved_item w copy_unchanged target_ext) input_files))"
      by (simp add: sorted_items_def)
    also have "\<dots> = mset (map (\<lambda>p. source (resolved_item w copy_unchanged target_ext p)) input_files)"
      by (simp add: image_mset.compositionality comp_def)
    also have "\<dots> = mset input_files"
      by (simp add: resolved_item_def)
    finally show ?thesis .
  qed
  then show "mset (map source plan) = mset input_files"
    using plan_field_maps(1) [OF all2] by simp
  show "\<forall>item\<in>set plan. determine_capture_datetime w (source item) = Inr (capture_dt item)"
  proof
    fix item
    assume "item \<in> set plan"
    then obtain item0 t where
      "item0 \<in> set (sorted_items w copy_unchanged target_ext input_files)" "item = item0\<lparr>target := t\<rparr>"
      using list_all2_member [OF all2] by blast
    then obtain p where p: "p \<in> set input_files"
      and item: "item = (resolved_item w copy_unchanged target_ext p)\<lparr>target := t\<rparr>"
      by (auto simp: sorted_items_def)
    from res p obtain dt where "determine_capture_datetime w p = Inr dt"
      by blast
    with item show "determine_capture_datetime w (source item) = Inr (capture_dt item)"
      by (simp add: resolved_item_def)
  qed
qed

text \<open>
  C2. The items of every plan are the input files, each with its resolved capture
  time, in the order of (capture timestamp, source file name): an item with a strictly
  smaller timestamp stands before every item with a larger one, and among items with
  equal timestamps an item with a strictly smaller file name stands first.
\<close>

theorem plan_total_order:
  assumes "main_plan w yw fs output_dir output_format subfolders copy_unchanged input_files = Inr plan"
  shows "mset (map source plan) = mset input_files \<and>
         (\<forall>i j. i < length plan \<and> j < length plan \<longrightarrow>
            determine_capture_datetime w (source (plan ! i)) = Inr (capture_dt (plan ! i)) \<and>
            (dt_key (capture_dt (plan ! i)) < dt_key (capture_dt (plan ! j)) \<longrightarrow> i < j) \<and>
            (capture_dt (plan ! i) = capture_dt (plan ! j) \<and>
             name (source (plan ! i)) < name (source (plan ! j)) \<longrightarrow> i < j))"
proof (intro conjI allI impI)
  show "mset (map source plan) = mset input_files"
    by (rule plan_sources(1) [OF assms])
next
  fix i j
  assume "i < length plan \<and> j < length plan"
  then show "determine_capture_datetime w (source (plan ! i)) = Inr (capture_dt (plan ! i))"
    using plan_sources(2) [OF assms] by simp
next
  fix i j
  assume b: "i < length plan \<and> j < length plan"
    and lt: "dt_key (capture_dt (plan ! i)) < dt_key (capture_dt (plan ! j))"
  show "i < j"
  proof (rule ccontr)
    assume "\<not> i < j"
    with b have "map sort_key_of plan ! j \<le> map sort_key_of plan ! i"
      using sorted_plan [OF assms] by (intro sorted_nth_mono) auto
    with b have "(dt_key (capture_dt (plan ! j)), name (source (plan ! j))) \<le>
        (dt_key (capture_dt (plan ! i)), name (source (plan ! i)))"
      by (simp only: nth_map sort_key_of_def)
    then have "dt_key (capture_dt (plan ! j)) \<le> dt_key (capture_dt (plan ! i))"
      by (rule lex_le_fst)
    with lt show False
      by (metis leD)
  qed
next
  fix i j
  assume b: "i < length plan \<and> j < length plan"
    and lt: "capture_dt (plan ! i) = capture_dt (plan ! j) \<and>
      name (source (plan ! i)) < name (source (plan ! j))"
  show "i < j"
  proof (rule ccontr)
    assume "\<not> i < j"
    with b have "map sort_key_of plan ! j \<le> map sort_key_of plan ! i"
      using sorted_plan [OF assms] by (intro sorted_nth_mono) auto
    with b have "(dt_key (capture_dt (plan ! j)), name (source (plan ! j))) \<le>
        (dt_key (capture_dt (plan ! i)), name (source (plan ! i)))"
      by (simp only: nth_map sort_key_of_def)
    with lt have "name (source (plan ! j)) \<le> name (source (plan ! i))"
      using lex_le_snd by metis
    with lt show False
      by (metis leD)
  qed
qed

theorem plan_total_order_witness:
  "main_plan example_world 4 example_fs example_out ''jpeg'' ''day'' True example_files =
     Inr [example_a, example_b, example_c] \<and>
   mset (map source [example_a, example_b, example_c]) = mset example_files \<and>
   capture_dt example_a = capture_dt example_b\<lparr>microsecond := 250000\<rparr> \<and>
   dt_key (capture_dt example_a) < dt_key (capture_dt example_b) \<and>
   dt_key (capture_dt example_b) < dt_key (capture_dt example_c) \<and>
   example_files = map source [example_c, example_b, example_a]"
proof -
  have "mset (map source [example_a, example_b, example_c]) = mset example_files"
    using plan_total_order [OF example_plan] by blast
  moreover have "dt_key (capture_dt example_a) < dt_key (capture_dt example_b)"
    "dt_key (capture_dt example_b) < dt_key (capture_dt example_c)"
    "capture_dt example_a = capture_dt example_b\<lparr>microsecond := 250000\<rparr>"
    "example_files = map source [example_c, example_b, example_a]"
    by (simp_all add: dt_key_def example_a_def example_b_def example_c_def example_files_def)
  ultimately show ?thesis
    using example_plan by simp
qed

subsection \<open>Sequence numbers\<close>

lemma same_second_iff:
  "replace_microsecond_0 a = replace_microsecond_0 b \<longleftrightarrow> sec_key a = sec_key b"
  by (cases a; cases b) (auto simp: replace_microsecond_0_def sec_key_def)

lemma sec_key_replace [simp]: "sec_key (replace_microsecond_0 a) = sec_key a"
  by (simp add: replace_microsecond_0_def sec_key_def)

lemma truncated_eq_iff:
  "microsecond c = 0 \<Longrightarrow> replace_microsecond_0 a = c \<longleftrightarrow> sec_key a = sec_key c"
  by (cases a; cases c) (auto simp: replace_microsecond_0_def sec_key_def)

lemma sec_key_mono: "dt_key a \<le> dt_key b \<Longrightarrow> sec_key a \<le> sec_key b"
  by (auto simp: dt_key_def sec_key_def less_eq_prod_def)

lemma same_second_count_simps [simp]:
  "same_second_count dt [] = 0"
  "same_second_count dt (x # xs) =
     (if sec_key (capture_dt x) = sec_key dt then Suc (same_second_count dt xs)
      else same_second_count dt xs)"
  by (simp_all add: same_second_count_def same_second_iff)

text \<open>
  The loop invariant: on items sorted by second, all at or after the second of
  \<open>last_second\<close>, the sequence number of item \<open>i\<close> is the number of items up to
  \<open>i\<close> in its second, plus the counter the loop started with when that second is
  \<open>last_second\<close>.
\<close>

lemma sequence_loop_count:
  assumes "sorted (map (\<lambda>q. sec_key (capture_dt q)) items)"
    and "\<And>c. l = Some c \<Longrightarrow> microsecond c = 0 \<and> (\<forall>q\<in>set items. sec_key c \<le> sec_key (capture_dt q))"
    and "i < length items"
  shows "sequence_loop l s items ! i =
     int (same_second_count (capture_dt (items ! i)) (take (Suc i) items)) +
     (if l = Some (replace_microsecond_0 (capture_dt (items ! i))) then s else 0)"
  using assms
proof (induction items arbitrary: l s i)
  case Nil
  then show ?case by simp
next
  case (Cons x xs)
  let ?c = "replace_microsecond_0 (capture_dt x)"
  let ?s' = "next_seq l s ?c"
  have seq: "sequence_loop l s (x # xs) = ?s' # sequence_loop (Some ?c) ?s' xs"
    by (simp add: Let_def next_last_Some)
  show ?case
  proof (cases i)
    case 0
    then show ?thesis
      unfolding seq by (auto simp: next_seq_def)
  next
    case (Suc j)
    with Cons.prems have j: "j < length xs"
      by simp
    have sorted_xs: "sorted (map (\<lambda>q. sec_key (capture_dt q)) xs)"
      and le_x: "\<forall>q\<in>set xs. sec_key (capture_dt x) \<le> sec_key (capture_dt q)"
      using Cons.prems(1) by auto
    have pre: "\<And>c. Some ?c = Some c \<Longrightarrow>
        microsecond c = 0 \<and> (\<forall>q\<in>set xs. sec_key c \<le> sec_key (capture_dt q))"
    proof -
      fix c
      assume "Some ?c = Some c"
      then have c: "c = ?c"
        by simp
      have "microsecond ?c = 0"
        by (simp add: replace_microsecond_0_def)
      with le_x show "microsecond c = 0 \<and> (\<forall>q\<in>set xs. sec_key c \<le> sec_key (capture_dt q))"
        unfolding c by simp
    qed
    have IH: "sequence_loop (Some ?c) ?s' xs ! j =
        int (same_second_count (capture_dt (xs ! j)) (take (Suc j) xs)) +
        (if Some ?c = Some (replace_microsecond_0 (capture_dt (xs ! j))) then ?s' else 0)"
      by (rule Cons.IH [OF sorted_xs pre j])
    show ?thesis
    proof (cases "sec_key (capture_dt x) = sec_key (capture_dt (xs ! j))")
      case True
      then have e: "?c = replace_microsecond_0 (capture_dt (xs ! j))"
        by (simp add: same_second_iff)
      show ?thesis
        using IH True e Suc unfolding seq by (auto simp: next_seq_def)
    next
      case False
      then have ne: "?c \<noteq> replace_microsecond_0 (capture_dt (xs ! j))"
        by (simp add: same_second_iff)
      have "l \<noteq> Some (replace_microsecond_0 (capture_dt (xs ! j)))"
      proof
        assume l: "l = Some (replace_microsecond_0 (capture_dt (xs ! j)))"
        then have "sec_key (capture_dt (xs ! j)) \<le> sec_key (capture_dt x)"
          using Cons.prems(2) [OF l] by simp
        moreover have "sec_key (capture_dt x) \<le> sec_key (capture_dt (xs ! j))"
          using le_x j by simp
        ultimately show False
          using False by simp
      qed
      then show ?thesis
        using IH False ne Suc unfolding seq by simp
    qed
  qed
qed

lemma sequence_numbers_count:
  assumes "sorted (map sort_key_of plan)" and "i < length plan"
  shows "sequence_numbers plan ! i =
     int (same_second_count (capture_dt (plan ! i)) (take (Suc i) plan))"
proof -
  have "sorted_wrt (\<lambda>a b. sort_key_of a \<le> sort_key_of b) plan"
    using assms(1) by (simp add: sorted_map)
  then have "sorted_wrt (\<lambda>a b. sec_key (capture_dt a) \<le> sec_key (capture_dt b)) plan"
  proof (rule sorted_wrt_mono_rel [rotated])
    fix a b
    assume "sort_key_of a \<le> sort_key_of b"
    then have "dt_key (capture_dt a) \<le> dt_key (capture_dt b)"
      unfolding sort_key_of_def by (rule lex_le_fst)
    then show "sec_key (capture_dt a) \<le> sec_key (capture_dt b)"
      by (rule sec_key_mono)
  qed
  then have "sorted (map (\<lambda>q. sec_key (capture_dt q)) plan)"
    by (simp add: sorted_map)
  then show ?thesis
    unfolding sequence_numbers_def
    using sequence_loop_count [of plan None i 0] assms(2) by simp
qed

lemma sequence_loop_step:
  "Suc j < length items \<Longrightarrow>
   sequence_loop l s items ! Suc j =
     next_seq (Some (replace_microsecond_0 (capture_dt (items ! j)))) (sequence_loop l s items ! j)
       (replace_microsecond_0 (capture_dt (items ! Suc j)))"
proof (induction items arbitrary: l s j)
  case Nil
  then show ?case by simp
next
  case (Cons x xs)
  show ?case
  proof (cases j)
    case 0
    with Cons.prems obtain y ys where "xs = y # ys"
      by (cases xs) auto
    with 0 show ?thesis
      by (simp add: Let_def next_last_Some)
  next
    case (Suc k)
    with Cons.prems have "Suc k < length xs"
      by simp
    from Cons.IH [OF this] Suc show ?thesis
      by (simp add: Let_def)
  qed
qed

lemma sequence_loop_first:
  "items \<noteq> [] \<Longrightarrow> sequence_loop None s items ! 0 = 1"
  by (cases items) (simp_all add: Let_def next_seq_def)

lemma plan_targets:
  assumes "main_plan w yw fs output_dir output_format subfolders copy_unchanged input_files = Inr plan"
    and "OUTPUT_FORMAT_TO_EXT output_format = Some target_ext"
    and "i < length plan"
  shows "ensure_unique fs (build_target_path yw output_dir (capture_dt (plan ! i))
           (sequence_numbers plan ! i) subfolders target_ext) = Inr (target (plan ! i))"
proof -
  let ?items = "sorted_items w copy_unchanged target_ext input_files"
  have a: "assign_targets yw fs output_dir subfolders target_ext None 0 ?items = Inr plan"
    using main_plan_Inr [OF assms(1)] assms(2) by auto
  note all2 = plan_items [OF assms(1,2)]
  have len: "length plan = length ?items"
    using all2 by (rule list_all2_lengthD)
  have dts: "map capture_dt plan = map capture_dt ?items"
    by (rule plan_field_maps(2) [OF all2])
  then have "capture_dt (plan ! i) = capture_dt (?items ! i)"
    using assms(3) len by (metis nth_map)
  moreover have "sequence_numbers plan = sequence_loop None 0 ?items"
    unfolding sequence_numbers_def by (rule sequence_loop_cong [OF dts])
  ultimately show ?thesis
    using assign_targets_nth [OF a, of i] assms(3) len by simp
qed

text \<open>
  C3. In every plan the sequence number of an item is the number of items up to and
  including it that fall into its whole second: the numbers of a same-second group are
  1, 2, 3, ... in plan order. The first item has number 1; every later item has the
  number of its predecessor plus one when both are in the same second, and 1 when the
  second changes. The target of the item is built with that number. Timestamps are
  compared after truncation to the second, whatever their microseconds.
\<close>

theorem sequence_numbers_contiguous:
  assumes "main_plan w yw fs output_dir output_format subfolders copy_unchanged input_files = Inr plan"
    and "i < length plan"
  shows "sequence_numbers plan ! i =
           int (length (filter (\<lambda>q. replace_microsecond_0 (capture_dt q) =
                                     replace_microsecond_0 (capture_dt (plan ! i)))
                          (take (Suc i) plan))) \<and>
         sequence_numbers plan ! i =
           (if 0 < i \<and> replace_microsecond_0 (capture_dt (plan ! (i - 1))) =
                        replace_microsecond_0 (capture_dt (plan ! i))
            then sequence_numbers plan ! (i - 1) + 1 else 1) \<and>
         (\<exists>target_ext. OUTPUT_FORMAT_TO_EXT output_format = Some target_ext \<and>
            ensure_unique fs (build_target_path yw output_dir (capture_dt (plan ! i))
              (sequence_numbers plan ! i) subfolders target_ext) = Inr (target (plan ! i)))"
proof (intro conjI)
  show "sequence_numbers plan ! i =
      int (length (filter (\<lambda>q. replace_microsecond_0 (capture_dt q) =
                                replace_microsecond_0 (capture_dt (plan ! i)))
                     (take (Suc i) plan)))"
    using sequence_numbers_count [OF sorted_plan [OF assms(1)] assms(2)]
    by (simp add: same_second_count_def)
next
  show "sequence_numbers plan ! i =
      (if 0 < i \<and> replace_microsecond_0 (capture_dt (plan ! (i - 1))) =
                   replace_microsecond_0 (capture_dt (plan ! i))
       then sequence_numbers plan ! (i - 1) + 1 else 1)"
  proof (cases i)
    case 0
    with assms(2) show ?thesis
      using sequence_loop_first [of plan 0] by (auto simp: sequence_numbers_def)
  next
    case (Suc j)
    with assms(2) show ?thesis
      using sequence_loop_step [of j plan None 0]
      by (auto simp: sequence_numbers_def next_seq_def)
  qed
next
  obtain target_ext where ext: "OUTPUT_FORMAT_TO_EXT output_format = Some target_ext"
    using main_plan_Inr [OF assms(1)] by blast
  then show "\<exists>target_ext. OUTPUT_FORMAT_TO_EXT output_format = Some target_ext \<and>
      ensure_unique fs (build_target_path yw output_dir (capture_dt (plan ! i))
        (sequence_numbers plan ! i) subfolders target_ext) = Inr (target (plan ! i))"
    using plan_targets [OF assms(1) ext assms(2)] by blast
qed

theorem sequence_numbers_contiguous_witness:
  "main_plan example_world 4 example_fs example_out ''jpeg'' ''day'' True example_files =
     Inr [example_a, example_b, example_c] \<and>
   sequence_numbers [example_a, example_b, example_c] = [1, 2, 1] \<and>
   microsecond (capture_dt example_a) = 250000 \<and> microsecond (capture_dt example_b) = 750000 \<and>
   replace_microsecond_0 (capture_dt example_a) = replace_microsecond_0 (capture_dt example_b) \<and>
   replace_microsecond_0 (capture_dt example_b) \<noteq> replace_microsecond_0 (capture_dt example_c) \<and>
   sequence_numbers [example_a, example_b, example_c] ! 1 =
     sequence_numbers [example_a, example_b, example_c] ! 0 + 1 \<and>
   sequence_numbers [example_a, example_b, example_c] ! 2 = 1"
proof -
  have s: "replace_microsecond_0 (capture_dt example_a) = replace_microsecond_0 (capture_dt example_b)"
    "replace_microsecond_0 (capture_dt example_b) \<noteq> replace_microsecond_0 (capture_dt example_c)"
    "microsecond (capture_dt example_a) = 250000" "microsecond (capture_dt example_b) = 750000"
    by (simp_all add: replace_microsecond_0_def example_a_def example_b_def example_c_def)
  have one: "sequence_numbers [example_a, example_b, example_c] ! 1 =
      sequence_numbers [example_a, example_b, example_c] ! 0 + 1"
    using sequence_numbers_contiguous [OF example_plan, of 1] s by simp
  have two: "sequence_numbers [example_a, example_b, example_c] ! 2 = 1"
    using sequence_numbers_contiguous [OF example_plan, of 2] s by simp
  have "sequence_numbers [example_a, example_b, example_c] = [1, 2, 1]"
    using s by (simp add: sequence_numbers_def Let_def next_seq_def next_last_Some)
  with one two s show ?thesis
    using example_plan by simp
qed

subsection \<open>Base names are read back unambiguously\<close>

text \<open>A run of digits that is followed by nothing or by a character that is not a digit
  is determined by the string.\<close>

lemma digit_run_unique:
  assumes "\<forall>c\<in>set a. is_digit c" and "\<forall>c\<in>set a'. is_digit c"
    and "r = [] \<or> \<not> is_digit (hd r)" and "r' = [] \<or> \<not> is_digit (hd r')"
    and "a @ r = a' @ r'"
  shows "a = a' \<and> r = r'"
  using assms
proof (induction a arbitrary: a')
  case Nil
  then show ?case
    by (cases a') auto
next
  case (Cons x a)
  show ?case
  proof (cases a')
    case Nil
    with Cons.prems show ?thesis
      by auto
  next
    case (Cons y b)
    with Cons.prems Cons.IH [of b] show ?thesis
      by auto
  qed
qed

lemma digits_year: "\<forall>c\<in>set (year_digits yw n). is_digit c"
  using zfill_digits by (auto simp: year_digits_def)

lemma digits_two: "\<forall>c\<in>set (two_digits n). is_digit c"
  using zfill_digits by (auto simp: two_digits_def)

lemma digits_format_04d: "0 \<le> i \<Longrightarrow> \<forall>c\<in>set (format_04d i). is_digit c"
  using zfill_digits by (auto simp: format_04d_def)

lemma year_digits_inj: "year_digits yw m = year_digits yw n \<Longrightarrow> m = n"
  unfolding year_digits_def by (rule zfill_str_nat_inj)

lemma two_digits_inj: "two_digits m = two_digits n \<Longrightarrow> m = n"
  unfolding two_digits_def by (rule zfill_str_nat_inj)

lemma format_04d_inj: "0 \<le> i \<Longrightarrow> 0 \<le> j \<Longrightarrow> format_04d i = format_04d j \<Longrightarrow> i = j"
  using zfill_str_nat_inj [of 4 "nat i" 4 "nat j"] by (simp add: format_04d_def)

lemma not_digit_sep: "\<not> is_digit (CHR ''-'')" "\<not> is_digit (CHR ''_'')"
  by (simp_all add: is_digit_def)

text \<open>One field of a base name and the separator after it.\<close>

lemma field_unique:
  assumes "\<forall>c\<in>set a. is_digit c" and "\<forall>c\<in>set a'. is_digit c" and "\<not> is_digit x"
    and "a @ x # r = a' @ x # r'"
  shows "a = a' \<and> r = r'"
  using digit_run_unique [OF assms(1,2), of "x # r" "x # r'"] assms(3,4) by simp

lemma base_filename_unique:
  assumes "0 \<le> i" and "0 \<le> j"
    and "r = [] \<or> \<not> is_digit (hd r)" and "r' = [] \<or> \<not> is_digit (hd r')"
    and "base_filename yw dt i [] @ r = base_filename yw dt' j [] @ r'"
  shows "sec_key dt = sec_key dt' \<and> i = j \<and> r = r'"
proof -
  note f = field_unique
  from assms(5) have
    "year_digits yw (year dt) @ CHR ''-'' # (two_digits (month dt) @ CHR ''-'' # (two_digits (day dt)
       @ CHR ''_'' # (two_digits (hour dt) @ CHR ''-'' # (two_digits (minute dt) @ CHR ''-'' #
       (two_digits (second dt) @ CHR ''_'' # (format_04d i @ r)))))) =
     year_digits yw (year dt') @ CHR ''-'' # (two_digits (month dt') @ CHR ''-'' # (two_digits (day dt')
       @ CHR ''_'' # (two_digits (hour dt') @ CHR ''-'' # (two_digits (minute dt') @ CHR ''-'' #
       (two_digits (second dt') @ CHR ''_'' # (format_04d j @ r'))))))"
    by (simp add: base_filename_def)
  from f [OF digits_year digits_year not_digit_sep(1) this]
  have y: "year_digits yw (year dt) = year_digits yw (year dt')"
    and 1: "two_digits (month dt) @ CHR ''-'' # (two_digits (day dt)
       @ CHR ''_'' # (two_digits (hour dt) @ CHR ''-'' # (two_digits (minute dt) @ CHR ''-'' #
       (two_digits (second dt) @ CHR ''_'' # (format_04d i @ r))))) =
     two_digits (month dt') @ CHR ''-'' # (two_digits (day dt')
       @ CHR ''_'' # (two_digits (hour dt') @ CHR ''-'' # (two_digits (minute dt') @ CHR ''-'' #
       (two_digits (second dt') @ CHR ''_'' # (format_04d j @ r')))))"
    by simp_all
  from f [OF digits_two digits_two not_digit_sep(1) 1]
  have m: "two_digits (month dt) = two_digits (month dt')"
    and 2: "two_digits (day dt)
       @ CHR ''_'' # (two_digits (hour dt) @ CHR ''-'' # (two_digits (minute dt) @ CHR ''-'' #
       (two_digits (second dt) @ CHR ''_'' # (format_04d i @ r)))) =
     two_digits (day dt')
       @ CHR ''_'' # (two_digits (hour dt') @ CHR ''-'' # (two_digits (minute dt') @ CHR ''-'' #
       (two_digits (second dt') @ CHR ''_'' # (format_04d j @ r'))))"
    by simp_all
  from f [OF digits_two digits_two not_digit_sep(2) 2]
  have d: "two_digits (day dt) = two_digits (day dt')"
    and 3: "two_digits (hour dt) @ CHR ''-'' # (two_digits (minute dt) @ CHR ''-'' #
       (two_digits (second dt) @ CHR ''_'' # (format_04d i @ r))) =
     two_digits (hour dt') @ CHR ''-'' # (two_digits (minute dt') @ CHR ''-'' #
       (two_digits (second dt') @ CHR ''_'' # (format_04d j @ r')))"
    by simp_all
  from f [OF digits_two digits_two not_digit_sep(1) 3]
  have h: "two_digits (hour dt) = two_digits (hour dt')"
    and 4: "two_digits (minute dt) @ CHR ''-'' #
       (two_digits (second dt) @ CHR ''_'' # (format_04d i @ r)) =
     two_digits (minute dt') @ CHR ''-'' #
       (two_digits (second dt') @ CHR ''_'' # (format_04d j @ r'))"
    by simp_all
  from f [OF digits_two digits_two not_digit_sep(1) 4]
  have mi: "two_digits (minute dt) = two_digits (minute dt')"
    and 5: "two_digits (second dt) @ CHR ''_'' # (format_04d i @ r) =
     two_digits (second dt') @ CHR ''_'' # (format_04d j @ r')"
    by simp_all
  from f [OF digits_two digits_two not_digit_sep(2) 5]
  have s: "two_digits (second dt) = two_digits (second dt')"
    and 6: "format_04d i @ r = format_04d j @ r'"
    by simp_all
  from digit_run_unique [OF digits_format_04d [OF assms(1)] digits_format_04d [OF assms(2)] assms(3,4) 6]
  have "format_04d i = format_04d j" and r: "r = r'"
    by simp_all
  then have "i = j"
    using format_04d_inj [OF assms(1,2)] by simp
  with y m d h mi s r show ?thesis
    by (auto simp: sec_key_def dest: year_digits_inj two_digits_inj)
qed

subsection \<open>Targets of a plan are pairwise different\<close>

text \<open>The name of what \<open>ensure_unique\<close> returns for a computed target path: the base
  name, then nothing or \<open>__k\<close>, then the extension.\<close>

lemma ensure_unique_target_name:
  assumes "OUTPUT_FORMAT_TO_EXT output_format = Some target_ext"
    and "ensure_unique fs (build_target_path yw output_dir dt idx subfolders target_ext) = Inr q"
  shows "\<exists>r. (r = [] \<or> \<not> is_digit (hd r)) \<and> name q = base_filename yw dt idx [] @ r @ target_ext"
proof -
  let ?p = "build_target_path yw output_dir dt idx subfolders target_ext"
  note v = valid_name_build_target_path [OF assms(1), of yw output_dir dt idx subfolders]
  note spec = ensure_unique_spec [OF v, of fs]
  show ?thesis
  proof (cases "?p \<in> set fs")
    case False
    with spec assms(2) have "q = ?p"
      by simp
    then have "name q = base_filename yw dt idx [] @ [] @ target_ext"
      using name_build_target_path [OF assms(1), of yw output_dir dt idx subfolders]
        base_filename_ext [of yw dt idx target_ext] by simp
    then show ?thesis
      by blast
  next
    case True
    with spec assms(2) obtain k where q: "q = numbered ?p k"
      by auto
    have "tail ?p \<noteq> []"
      by (simp add: build_target_path_eq [OF assms(1)])
    then have "name q = stem ?p @ ''__'' @ str_nat k @ suffix ?p"
      by (simp add: q numbered_def name_def)
    then have "name q = base_filename yw dt idx [] @ (''__'' @ str_nat k) @ target_ext"
      by (simp add: stem_suffix_build_target_path [OF assms(1)])
    moreover have "\<not> is_digit (hd (''__'' @ str_nat k))"
      by (simp add: is_digit_def)
    ultimately show ?thesis
      by blast
  qed
qed

lemma same_target_same_base:
  assumes "OUTPUT_FORMAT_TO_EXT output_format = Some target_ext"
    and "0 \<le> i" and "0 \<le> j"
    and "ensure_unique fs (build_target_path yw output_dir dt i subfolders target_ext) = Inr q"
    and "ensure_unique fs (build_target_path yw output_dir dt' j subfolders target_ext) = Inr q"
  shows "sec_key dt = sec_key dt' \<and> i = j"
proof -
  obtain r where r: "r = [] \<or> \<not> is_digit (hd r)" "name q = base_filename yw dt i [] @ r @ target_ext"
    using ensure_unique_target_name [OF assms(1,4)] by blast
  obtain r' where r': "r' = [] \<or> \<not> is_digit (hd r')" "name q = base_filename yw dt' j [] @ r' @ target_ext"
    using ensure_unique_target_name [OF assms(1,5)] by blast
  from r(2) r'(2) have "base_filename yw dt i [] @ r = base_filename yw dt' j [] @ r'"
    by simp
  from base_filename_unique [OF assms(2,3) r(1) r'(1) this] show ?thesis
    by simp
qed

lemma same_path_same_base:
  assumes "OUTPUT_FORMAT_TO_EXT output_format = Some target_ext"
    and "0 \<le> i" and "0 \<le> j"
    and "build_target_path yw output_dir dt i subfolders target_ext =
         build_target_path yw output_dir dt' j subfolders target_ext"
  shows "sec_key dt = sec_key dt' \<and> i = j"
proof -
  have "base_filename yw dt i target_ext = base_filename yw dt' j target_ext"
    using assms(4) name_build_target_path [OF assms(1)] by metis
  then have "base_filename yw dt i [] @ [] = base_filename yw dt' j [] @ []"
    using base_filename_ext [of yw dt i target_ext] base_filename_ext [of yw dt' j target_ext] by simp
  from base_filename_unique [OF assms(2,3) _ _ this] show ?thesis
    by simp
qed

text \<open>A later item of the same second has a larger sequence number.\<close>

lemma same_second_count_less:
  assumes "i < j" and "j < length plan"
    and "sec_key (capture_dt (plan ! i)) = sec_key (capture_dt (plan ! j))"
  shows "same_second_count (capture_dt (plan ! i)) (take (Suc i) plan) <
         same_second_count (capture_dt (plan ! j)) (take (Suc j) plan)"
proof -
  let ?P = "\<lambda>q. replace_microsecond_0 (capture_dt q) = replace_microsecond_0 (capture_dt (plan ! j))"
  have e: "same_second_count (capture_dt (plan ! i)) xs = length (filter ?P xs)" for xs
    using assms(3) by (simp add: same_second_count_def same_second_iff)
  have "take (Suc i) plan = take (Suc i) (take j plan)"
    using assms(1) by (simp add: min_def)
  then have le: "length (filter ?P (take (Suc i) plan)) \<le> length (filter ?P (take j plan))"
    by (metis append_take_drop_id filter_append length_append le_add1)
  have "take (Suc j) plan = take j plan @ [plan ! j]"
    using assms(2) by (rule take_Suc_conv_app_nth)
  then have "same_second_count (capture_dt (plan ! j)) (take (Suc j) plan) =
      Suc (length (filter ?P (take j plan)))"
    unfolding same_second_count_def by simp
  with le e [of "take (Suc i) plan"] show ?thesis
    by linarith
qed

lemma plan_distinct:
  assumes "main_plan w yw fs output_dir output_format subfolders copy_unchanged input_files = Inr plan"
    and "OUTPUT_FORMAT_TO_EXT output_format = Some target_ext"
  shows "distinct (map target plan)"
    and "distinct (map (\<lambda>i. build_target_path yw output_dir (capture_dt (plan ! i))
            (sequence_numbers plan ! i) subfolders target_ext) [0..<length plan])"
proof -
  note srt = sorted_plan [OF assms(1)]
  have seq: "sequence_numbers plan ! i =
      int (same_second_count (capture_dt (plan ! i)) (take (Suc i) plan))" if "i < length plan" for i
    using sequence_numbers_count [OF srt that] .
  have nonneg: "0 \<le> sequence_numbers plan ! i" if "i < length plan" for i
    using seq [OF that] by simp
  have less: "sequence_numbers plan ! i < sequence_numbers plan ! j"
    if "i < j" "j < length plan" "sec_key (capture_dt (plan ! i)) = sec_key (capture_dt (plan ! j))" for i j
    using same_second_count_less [OF that] seq [of i] seq [of j] that by simp
  have tgt: "target (plan ! i) \<noteq> target (plan ! j)" if "i < j" "j < length plan" for i j
  proof
    assume e: "target (plan ! i) = target (plan ! j)"
    from that have i: "i < length plan"
      by simp
    have ti: "ensure_unique fs (build_target_path yw output_dir (capture_dt (plan ! i))
        (sequence_numbers plan ! i) subfolders target_ext) = Inr (target (plan ! i))"
      by (rule plan_targets [OF assms i])
    have tj: "ensure_unique fs (build_target_path yw output_dir (capture_dt (plan ! j))
        (sequence_numbers plan ! j) subfolders target_ext) = Inr (target (plan ! i))"
      unfolding e by (rule plan_targets [OF assms that(2)])
    have "sec_key (capture_dt (plan ! i)) = sec_key (capture_dt (plan ! j)) \<and>
        sequence_numbers plan ! i = sequence_numbers plan ! j"
      by (rule same_target_same_base [OF assms(2) nonneg [OF i] nonneg [OF that(2)] ti tj])
    with less [OF that] show False
      by simp
  qed
  show "distinct (map target plan)"
  proof (unfold distinct_conv_nth, intro allI impI)
    fix i j
    assume "i < length (map target plan)" "j < length (map target plan)" "i \<noteq> j"
    then show "map target plan ! i \<noteq> map target plan ! j"
      using tgt [of i j] tgt [of j i] by (cases "i < j") auto
  qed
  have pth: "build_target_path yw output_dir (capture_dt (plan ! i)) (sequence_numbers plan ! i)
        subfolders target_ext \<noteq>
      build_target_path yw output_dir (capture_dt (plan ! j)) (sequence_numbers plan ! j)
        subfolders target_ext" if "i < j" "j < length plan" for i j
  proof
    assume e: "build_target_path yw output_dir (capture_dt (plan ! i)) (sequence_numbers plan ! i)
        subfolders target_ext =
      build_target_path yw output_dir (capture_dt (plan ! j)) (sequence_numbers plan ! j)
        subfolders target_ext"
    from that have i: "i < length plan"
      by simp
    have "sec_key (capture_dt (plan ! i)) = sec_key (capture_dt (plan ! j)) \<and>
        sequence_numbers plan ! i = sequence_numbers plan ! j"
      by (rule same_path_same_base [OF assms(2) nonneg [OF i] nonneg [OF that(2)] e])
    with less [OF that] show False
      by simp
  qed
  show "distinct (map (\<lambda>i. build_target_path yw output_dir (capture_dt (plan ! i))
      (sequence_numbers plan ! i) subfolders target_ext) [0..<length plan])"
  proof (unfold distinct_conv_nth, intro allI impI)
    fix i j
    assume "i < length (map (\<lambda>i. build_target_path yw output_dir (capture_dt (plan ! i))
        (sequence_numbers plan ! i) subfolders target_ext) [0..<length plan])"
      "j < length (map (\<lambda>i. build_target_path yw output_dir (capture_dt (plan ! i))
        (sequence_numbers plan ! i) subfolders target_ext) [0..<length plan])" "i \<noteq> j"
    then show "map (\<lambda>i. build_target_path yw output_dir (capture_dt (plan ! i))
        (sequence_numbers plan ! i) subfolders target_ext) [0..<length plan] ! i \<noteq>
      map (\<lambda>i. build_target_path yw output_dir (capture_dt (plan ! i))
        (sequence_numbers plan ! i) subfolders target_ext) [0..<length plan] ! j"
      using pth [of i j] pth [of j i] by (cases "i < j") auto
  qed
qed

text \<open>
  C1. In every plan the planner produces, the base paths built from the timestamps and
  sequence numbers of its items are pairwise different, and so are the final targets
  that \<open>ensure_unique\<close> returns for them against the files that exist. The planner
  produces a plan whenever the output format is one of the four, there is an input file
  and the capture time of every input file is resolved.
\<close>

theorem plan_targets_distinct:
  assumes "OUTPUT_FORMAT_TO_EXT output_format = Some target_ext" and "input_files \<noteq> []"
  shows "(\<forall>plan. main_plan w yw fs output_dir output_format subfolders copy_unchanged input_files = Inr plan \<longrightarrow>
            distinct (map (\<lambda>i. build_target_path yw output_dir (capture_dt (plan ! i))
               (sequence_numbers plan ! i) subfolders target_ext) [0..<length plan]) \<and>
            distinct (map target plan)) \<and>
         ((\<forall>p\<in>set input_files. \<exists>dt. determine_capture_datetime w p = Inr dt) \<longrightarrow>
            (\<exists>plan. main_plan w yw fs output_dir output_format subfolders copy_unchanged input_files = Inr plan))"
proof (intro conjI allI impI)
  fix plan
  assume p: "main_plan w yw fs output_dir output_format subfolders copy_unchanged input_files = Inr plan"
  show "distinct (map (\<lambda>i. build_target_path yw output_dir (capture_dt (plan ! i))
      (sequence_numbers plan ! i) subfolders target_ext) [0..<length plan])"
    by (rule plan_distinct(2) [OF p assms(1)])
  show "distinct (map target plan)"
    by (rule plan_distinct(1) [OF p assms(1)])
next
  assume "\<forall>p\<in>set input_files. \<exists>dt. determine_capture_datetime w p = Inr dt"
  then show "\<exists>plan. main_plan w yw fs output_dir output_format subfolders copy_unchanged input_files = Inr plan"
    by (rule main_plan_returns [OF assms])
qed

theorem plan_targets_distinct_witness:
  "OUTPUT_FORMAT_TO_EXT ''jpeg'' = Some ''.jpg'' \<and> example_files \<noteq> [] \<and>
   main_plan example_world 4 example_fs example_out ''jpeg'' ''day'' True example_files =
     Inr [example_a, example_b, example_c] \<and>
   target example_b =
     \<lparr>anchor = ''/'', tail = [''out'', ''2024'', ''03'', ''05'', ''2024-03-05_10-00-00_0002__1.jpg'']\<rparr> \<and>
   distinct (map target [example_a, example_b, example_c])"
proof -
  have h: "OUTPUT_FORMAT_TO_EXT ''jpeg'' = Some ''.jpg''"
    by (simp add: OUTPUT_FORMAT_TO_EXT_def)
  have ne: "example_files \<noteq> []"
    by (simp add: example_files_def)
  have "distinct (map target [example_a, example_b, example_c])"
    using plan_targets_distinct [OF h ne, of example_world 4 example_fs example_out "''day''" True]
      example_plan by blast
  moreover have "target example_b =
     \<lparr>anchor = ''/'', tail = [''out'', ''2024'', ''03'', ''05'', ''2024-03-05_10-00-00_0002__1.jpg'']\<rparr>"
    by (simp add: example_b_def)
  ultimately show ?thesis
    using h ne example_plan by simp
qed

subsection \<open>Determinism of the planning phase\<close>

lemma filter_key_singleton:
  "distinct (map f xs) \<Longrightarrow> k \<in> set xs \<Longrightarrow> filter (\<lambda>x. f k = f x) xs = [k]"
proof (induction xs)
  case Nil
  then show ?case by simp
next
  case (Cons x xs)
  show ?case
  proof (cases "k = x")
    case True
    with Cons.prems have "\<forall>y\<in>set xs. f x \<noteq> f y"
      by auto
    then have "filter (\<lambda>y. f x = f y) xs = []"
      by (simp add: filter_empty_conv)
    with True show ?thesis
      by simp
  next
    case False
    with Cons.prems have "k \<in> set xs"
      by simp
    moreover from Cons.prems have "f x \<notin> f ` set xs"
      by simp
    ultimately have "k \<in> set xs" "f k \<noteq> f x"
      by (metis imageI)+
    with Cons show ?thesis
      by simp
  qed
qed

text \<open>Sorting two arrangements of the same items gives the same list when no two items
  have the same key.\<close>

lemma sort_key_permutation:
  assumes "mset ys = mset xs" and "distinct (map f xs)"
  shows "sort_key f ys = sort_key f xs"
proof (rule properties_for_sort_key)
  show "mset (sort_key f xs) = mset ys"
    using assms(1) by simp
  show "sorted (map f (sort_key f xs))"
    by simp
  have dy: "distinct (map f ys)"
    using assms mset_eq_imp_distinct_iff [of "map f ys" "map f xs"] by simp
  fix k
  assume "k \<in> set (sort_key f xs)"
  then have kx: "k \<in> set xs"
    by simp
  then have ky: "k \<in> set ys"
    using assms(1) mset_eq_setD by blast
  have "filter (\<lambda>x. f k = f x) (sort_key f xs) = filter (\<lambda>x. f k = f x) xs"
    using filter_key_singleton [of f "sort_key f xs" k] filter_key_singleton [OF assms(2) kx] assms(2) kx
    by (simp add: distinct_map inj_on_def) 
  then show "filter (\<lambda>x. f k = f x) (sort_key f xs) = filter (\<lambda>x. f k = f x) ys"
    using filter_key_singleton [OF assms(2) kx] filter_key_singleton [OF dy ky] by simp
qed

lemma main_plan_Inr_iff:
  "main_plan w yw fs output_dir output_format subfolders copy_unchanged input_files = Inr plan \<longleftrightarrow>
     (\<exists>target_ext. OUTPUT_FORMAT_TO_EXT output_format = Some target_ext \<and> input_files \<noteq> [] \<and>
        (\<forall>p\<in>set input_files. \<exists>dt. determine_capture_datetime w p = Inr dt) \<and>
        assign_targets yw fs output_dir subfolders target_ext None 0
          (sorted_items w copy_unchanged target_ext input_files) = Inr plan)"
proof
  assume "main_plan w yw fs output_dir output_format subfolders copy_unchanged input_files = Inr plan"
  then show "\<exists>target_ext. OUTPUT_FORMAT_TO_EXT output_format = Some target_ext \<and> input_files \<noteq> [] \<and>
      (\<forall>p\<in>set input_files. \<exists>dt. determine_capture_datetime w p = Inr dt) \<and>
      assign_targets yw fs output_dir subfolders target_ext None 0
        (sorted_items w copy_unchanged target_ext input_files) = Inr plan"
    by (rule main_plan_Inr)
next
  assume "\<exists>target_ext. OUTPUT_FORMAT_TO_EXT output_format = Some target_ext \<and> input_files \<noteq> [] \<and>
      (\<forall>p\<in>set input_files. \<exists>dt. determine_capture_datetime w p = Inr dt) \<and>
      assign_targets yw fs output_dir subfolders target_ext None 0
        (sorted_items w copy_unchanged target_ext input_files) = Inr plan"
  then obtain target_ext where ext: "OUTPUT_FORMAT_TO_EXT output_format = Some target_ext"
    and ne: "input_files \<noteq> []"
    and res: "\<forall>p\<in>set input_files. \<exists>dt. determine_capture_datetime w p = Inr dt"
    and a: "assign_targets yw fs output_dir subfolders target_ext None 0
        (sorted_items w copy_unchanged target_ext input_files) = Inr plan"
    by blast
  have "build_plan w copy_unchanged target_ext input_files =
      Inr (map (resolved_item w copy_unchanged target_ext) input_files)"
    unfolding build_plan_Inr using res by simp
  with ext ne a show "main_plan w yw fs output_dir output_format subfolders copy_unchanged input_files = Inr plan"
    by (simp add: main_plan_def Let_def sorted_items_def)
qed

text \<open>
  C9, amended. Two runs of the planning phase with the same options and the same
  destination file system, in which every input file resolves to the same timestamp
  (or raises the same exception), produce the same plan when they list the input
  files in the same order, and also when they list the same files in a different
  order provided no two files share both timestamp and file name. The two runs end in
  the same way altogether (the same plan or the same exception) when they list the
  files in the same order or the capture time of every file is resolved.
\<close>

theorem planner_deterministic:
  assumes "\<forall>p\<in>set input_files. determine_capture_datetime w' p = determine_capture_datetime w p"
    and "mset input_files' = mset input_files"
    and "input_files' = input_files \<or>
         distinct (map (\<lambda>p. (determine_capture_datetime w p, name p)) input_files)"
  shows "(\<forall>plan. (main_plan w' yw fs output_dir output_format subfolders copy_unchanged input_files' = Inr plan) =
                  (main_plan w yw fs output_dir output_format subfolders copy_unchanged input_files = Inr plan)) \<and>
         (input_files' = input_files \<or>
          (\<forall>p\<in>set input_files. \<exists>dt. determine_capture_datetime w p = Inr dt) \<longrightarrow>
            main_plan w' yw fs output_dir output_format subfolders copy_unchanged input_files' =
            main_plan w yw fs output_dir output_format subfolders copy_unchanged input_files)"
proof -
  have set_eq: "set input_files' = set input_files"
    using assms(2) by (rule mset_eq_setD)
  have empty: "(input_files' = []) = (input_files = [])"
    using set_eq by (metis set_empty)
  have init: "initial_item w' copy_unchanged target_ext p = initial_item w copy_unchanged target_ext p"
    if "p \<in> set input_files" for p target_ext
  proof -
    have d: "determine_capture_datetime w' p = determine_capture_datetime w p"
      using assms(1) that by simp
    then have "resolved_item w' copy_unchanged target_ext p = resolved_item w copy_unchanged target_ext p"
      by (simp add: resolved_item_def)
    with d show ?thesis
      by (simp add: initial_item_eq split: sum.splits)
  qed
  have bp: "build_plan w' copy_unchanged target_ext fl = build_plan w copy_unchanged target_ext fl"
    if "set fl \<subseteq> set input_files" for target_ext fl
    using that by (induction fl) (simp_all add: init split: sum.splits)
  have worlds: "main_plan w' yw fs output_dir output_format subfolders copy_unchanged fl =
      main_plan w yw fs output_dir output_format subfolders copy_unchanged fl"
    if "set fl \<subseteq> set input_files" for fl
    using bp [OF that] by (simp add: main_plan_def split: option.splits)
  have srt: "sorted_items w copy_unchanged target_ext input_files' =
      sorted_items w copy_unchanged target_ext input_files"
    if res: "\<forall>p\<in>set input_files. \<exists>dt. determine_capture_datetime w p = Inr dt" for target_ext
    using assms(3)
  proof
    assume "input_files' = input_files"
    then show ?thesis
      by simp
  next
    assume d: "distinct (map (\<lambda>p. (determine_capture_datetime w p, name p)) input_files)"
    then have dist: "distinct input_files"
      and inj: "inj_on (\<lambda>p. (determine_capture_datetime w p, name p)) (set input_files)"
      by (simp_all add: distinct_map)
    have "inj_on (\<lambda>p. sort_key_of (resolved_item w copy_unchanged target_ext p)) (set input_files)"
    proof (rule inj_onI)
      fix x y
      assume x: "x \<in> set input_files" and y: "y \<in> set input_files"
        and e: "sort_key_of (resolved_item w copy_unchanged target_ext x) =
                sort_key_of (resolved_item w copy_unchanged target_ext y)"
      from res x y obtain dx dy where
        "determine_capture_datetime w x = Inr dx" "determine_capture_datetime w y = Inr dy"
        by blast
      with e have "(\<lambda>p. (determine_capture_datetime w p, name p)) x =
          (\<lambda>p. (determine_capture_datetime w p, name p)) y"
        by (simp add: sort_key_of_def resolved_item_def dt_key_eq_iff)
      from inj_onD [OF inj this x y] show "x = y" .
    qed
    with dist have "distinct (map (\<lambda>p. sort_key_of (resolved_item w copy_unchanged target_ext p)) input_files)"
      by (simp add: distinct_map)
    then have "distinct (map sort_key_of (map (resolved_item w copy_unchanged target_ext) input_files))"
      by (simp add: comp_def)
    moreover have "mset (map (resolved_item w copy_unchanged target_ext) input_files') =
        mset (map (resolved_item w copy_unchanged target_ext) input_files)"
      using assms(2) by (metis mset_map)
    ultimately show ?thesis
      unfolding sorted_items_def by (rule sort_key_permutation [rotated])
  qed
  have order: "(main_plan w yw fs output_dir output_format subfolders copy_unchanged input_files' = Inr plan) =
      (main_plan w yw fs output_dir output_format subfolders copy_unchanged input_files = Inr plan)" for plan
    unfolding main_plan_Inr_iff set_eq empty using srt by auto
  have resolved: "main_plan w yw fs output_dir output_format subfolders copy_unchanged input_files' =
      main_plan w yw fs output_dir output_format subfolders copy_unchanged input_files"
    if res: "\<forall>p\<in>set input_files. \<exists>dt. determine_capture_datetime w p = Inr dt"
  proof -
    have "build_plan w copy_unchanged target_ext input_files' =
        Inr (map (resolved_item w copy_unchanged target_ext) input_files')" for target_ext
      by (rule build_plan_resolved) (use res set_eq in simp)
    moreover have "build_plan w copy_unchanged target_ext input_files =
        Inr (map (resolved_item w copy_unchanged target_ext) input_files)" for target_ext
      by (rule build_plan_resolved [OF res])
    ultimately show ?thesis
      using srt [OF res, unfolded sorted_items_def]
      by (simp add: main_plan_def empty Let_def split: option.splits)
  qed
  have "main_plan w' yw fs output_dir output_format subfolders copy_unchanged input_files' =
      main_plan w yw fs output_dir output_format subfolders copy_unchanged input_files'"
    by (rule worlds) (simp add: set_eq)
  with order resolved show ?thesis
    by auto
qed

lemma determine_no_exif:
  "Image_open w p = Raises \<Longrightarrow>
   determine_capture_datetime (w\<lparr>Image_open := (\<lambda>p. Returns (Image (Returns [])))\<rparr>) p =
     determine_capture_datetime w p"
  by (simp add: determine_capture_datetime_def get_exif_datetime_def get_file_times_def Let_def
      split: option.splits sum.splits)

lemma example_capture_no_exif:
  "determine_capture_datetime example_world_no_exif p = determine_capture_datetime example_world p"
  unfolding example_world_no_exif_def
  by (rule determine_no_exif) (simp add: example_world_def)

theorem planner_deterministic_witness:
  "determine_capture_datetime example_world_no_exif (hd example_files) =
     determine_capture_datetime example_world (hd example_files) \<and>
   mset (rev example_files) = mset example_files \<and>
   rev example_files \<noteq> example_files \<and>
   distinct (map (\<lambda>p. (determine_capture_datetime example_world p, name p)) example_files) \<and>
   main_plan example_world_no_exif 4 example_fs example_out ''jpeg'' ''day'' True (rev example_files) =
     Inr [example_a, example_b, example_c]"
proof -
  have d: "distinct (map (\<lambda>p. (determine_capture_datetime example_world p, name p)) example_files)"
    by (simp add: example_files_def name_def)
  have m: "mset (rev example_files) = mset example_files"
    by simp
  have c: "\<forall>p\<in>set example_files.
      determine_capture_datetime example_world_no_exif p = determine_capture_datetime example_world p"
    using example_capture_no_exif by blast
  have "(main_plan example_world_no_exif 4 example_fs example_out ''jpeg'' ''day'' True (rev example_files) =
       Inr [example_a, example_b, example_c]) =
      (main_plan example_world 4 example_fs example_out ''jpeg'' ''day'' True example_files =
       Inr [example_a, example_b, example_c])"
    using planner_deterministic [OF c m disjI2 [OF d], of 4 example_fs example_out "''jpeg''" "''day''" True]
    by blast
  moreover have "rev example_files \<noteq> example_files"
    by (simp add: example_files_def)
  moreover have "determine_capture_datetime example_world_no_exif (hd example_files) =
      determine_capture_datetime example_world (hd example_files)"
    using c by (simp add: example_files_def)
  ultimately show ?thesis
    using d m example_plan by simp
qed

text \<open>
  Two files of the same name in different directories, modified at the same moment
  (found when \<open>iter_input_files\<close> recurses): their sort keys are equal, the stable sort
  keeps them in the order they were listed in, and the sequence numbers follow that
  order.
\<close>

lemma tie_capture:
  "name p = ''a.jpg'' \<Longrightarrow> determine_capture_datetime example_world p = Inr tie_date"
  by (simp add: determine_capture_datetime_def example_world_def get_file_times_def tie_date_def
      try_parse_from_name_def DATETIME_NAME_PATTERNS_def name_pattern_def re_d_def)

lemma tie_plan:
  assumes "name p = ''a.jpg''" and "name q = ''a.jpg''"
  shows "main_plan example_world 4 [] example_out ''jpeg'' ''none'' True [p, q] =
     Inr [\<lparr>source = p, target = \<lparr>anchor = ''/'', tail = [''out'', ''2024-03-05_10-00-00_0001.jpg'']\<rparr>,
           capture_dt = tie_date, needs_reencode = False\<rparr>,
          \<lparr>source = q, target = \<lparr>anchor = ''/'', tail = [''out'', ''2024-03-05_10-00-00_0002.jpg'']\<rparr>,
           capture_dt = tie_date, needs_reencode = False\<rparr>]"
proof -
  have h: "OUTPUT_FORMAT_TO_EXT ''jpeg'' = Some ''.jpg''"
    by (simp add: OUTPUT_FORMAT_TO_EXT_def)
  have "lower (name_suffix ''a.jpg'') = ''.jpg''"
    by code_simp
  then have sfx: "lower (suffix p) = ''.jpg''" "lower (suffix q) = ''.jpg''"
    using assms by (simp_all add: suffix_def)
  have items: "build_plan example_world True ''.jpg'' [p, q] =
      Inr [\<lparr>source = p, target = Path_empty, capture_dt = tie_date, needs_reencode = False\<rparr>,
           \<lparr>source = q, target = Path_empty, capture_dt = tie_date, needs_reencode = False\<rparr>]"
    by (simp add: initial_item_def tie_capture assms sfx)
  have srt: "sort_key sort_key_of
      [\<lparr>source = p, target = Path_empty, capture_dt = tie_date, needs_reencode = False\<rparr>,
       \<lparr>source = q, target = Path_empty, capture_dt = tie_date, needs_reencode = False\<rparr>] =
      [\<lparr>source = p, target = Path_empty, capture_dt = tie_date, needs_reencode = False\<rparr>,
       \<lparr>source = q, target = Path_empty, capture_dt = tie_date, needs_reencode = False\<rparr>]"
    by (simp add: sort_key_of_def assms)
  have paths: "build_target_path 4 example_out tie_date 1 ''none'' ''.jpg'' =
      \<lparr>anchor = ''/'', tail = [''out'', ''2024-03-05_10-00-00_0001.jpg'']\<rparr>"
    "build_target_path 4 example_out tie_date 2 ''none'' ''.jpg'' =
      \<lparr>anchor = ''/'', tail = [''out'', ''2024-03-05_10-00-00_0002.jpg'']\<rparr>"
    by (simp_all add: build_target_path_eq [OF h] layout_dirs_def base_filename_def example_digits
        example_out_def tie_date_def)
  have asg: "assign_targets 4 [] example_out ''none'' ''.jpg'' None 0
      [\<lparr>source = p, target = Path_empty, capture_dt = tie_date, needs_reencode = False\<rparr>,
       \<lparr>source = q, target = Path_empty, capture_dt = tie_date, needs_reencode = False\<rparr>] =
     Inr [\<lparr>source = p, target = \<lparr>anchor = ''/'', tail = [''out'', ''2024-03-05_10-00-00_0001.jpg'']\<rparr>,
           capture_dt = tie_date, needs_reencode = False\<rparr>,
          \<lparr>source = q, target = \<lparr>anchor = ''/'', tail = [''out'', ''2024-03-05_10-00-00_0002.jpg'']\<rparr>,
           capture_dt = tie_date, needs_reencode = False\<rparr>]"
    by (simp add: Let_def next_seq_def next_last_Some paths ensure_unique_def)
  have ne: "([p, q] = []) = False"
    by simp
  show ?thesis
    unfolding main_plan_def Let_def
    by (simp only: h ne option.case if_False items sum.case srt asg)
qed

text \<open>
  C9, as stated for a fixed set of input files, fails when two files share timestamp
  and name: the two files below are listed in one order by one run and in the other
  order by the next, and the runs give them different targets.
\<close>

theorem planner_order_counterexample:
  "mset [\<lparr>anchor = ''/'', tail = [''in'', ''x'', ''a.jpg'']\<rparr>, \<lparr>anchor = ''/'', tail = [''in'', ''y'', ''a.jpg'']\<rparr>] =
   mset [\<lparr>anchor = ''/'', tail = [''in'', ''y'', ''a.jpg'']\<rparr>, \<lparr>anchor = ''/'', tail = [''in'', ''x'', ''a.jpg'']\<rparr>] \<and>
   main_plan example_world 4 [] example_out ''jpeg'' ''none'' True
     [\<lparr>anchor = ''/'', tail = [''in'', ''x'', ''a.jpg'']\<rparr>, \<lparr>anchor = ''/'', tail = [''in'', ''y'', ''a.jpg'']\<rparr>] =
     Inr [\<lparr>source = \<lparr>anchor = ''/'', tail = [''in'', ''x'', ''a.jpg'']\<rparr>,
           target = \<lparr>anchor = ''/'', tail = [''out'', ''2024-03-05_10-00-00_0001.jpg'']\<rparr>,
           capture_dt = tie_date, needs_reencode = False\<rparr>,
          \<lparr>source = \<lparr>anchor = ''/'', tail = [''in'', ''y'', ''a.jpg'']\<rparr>,
           target = \<lparr>anchor = ''/'', tail = [''out'', ''2024-03-05_10-00-00_0002.jpg'']\<rparr>,
           capture_dt = tie_date, needs_reencode = False\<rparr>] \<and>
   main_plan example_world 4 [] example_out ''jpeg'' ''none'' True
     [\<lparr>anchor = ''/'', tail = [''in'', ''y'', ''a.jpg'']\<rparr>, \<lparr>anchor = ''/'', tail = [''in'', ''x'', ''a.jpg'']\<rparr>] =
     Inr [\<lparr>source = \<lparr>anchor = ''/'', tail = [''in'', ''y'', ''a.jpg'']\<rparr>,
           target = \<lparr>anchor = ''/'', tail = [''out'', ''2024-03-05_10-00-00_0001.jpg'']\<rparr>,
           capture_dt = tie_date, needs_reencode = False\<rparr>,
          \<lparr>source = \<lparr>anchor = ''/'', tail = [''in'', ''x'', ''a.jpg'']\<rparr>,
           target = \<lparr>anchor = ''/'', tail = [''out'', ''2024-03-05_10-00-00_0002.jpg'']\<rparr>,
           capture_dt = tie_date, needs_reencode = False\<rparr>] \<and>
   main_plan example_world 4 [] example_out ''jpeg'' ''none'' True
     [\<lparr>anchor = ''/'', tail = [''in'', ''x'', ''a.jpg'']\<rparr>, \<lparr>anchor = ''/'', tail = [''in'', ''y'', ''a.jpg'']\<rparr>] \<noteq>
   main_plan example_world 4 [] example_out ''jpeg'' ''none'' True
     [\<lparr>anchor = ''/'', tail = [''in'', ''y'', ''a.jpg'']\<rparr>, \<lparr>anchor = ''/'', tail = [''in'', ''x'', ''a.jpg'']\<rparr>]"
proof -
  have n: "name \<lparr>anchor = ''/'', tail = [''in'', ''x'', ''a.jpg'']\<rparr> = ''a.jpg''"
    "name \<lparr>anchor = ''/'', tail = [''in'', ''y'', ''a.jpg'']\<rparr> = ''a.jpg''"
    by (simp_all add: name_def)
  show ?thesis
    unfolding tie_plan [OF n(1) n(2)] tie_plan [OF n(2) n(1)] by simp
qed

subsection \<open>Rejected file-name matches\<close>

lemma determine_steps:
  "determine_capture_datetime w p =
     (case exif_datetime w p of
        Some dt \<Rightarrow> Inr dt
      | None \<Rightarrow>
          (case try_parse_from_name (name p) of
             Some dt \<Rightarrow> Inr dt
           | None \<Rightarrow> get_file_times w p))"
  by (simp add: determine_capture_datetime_def exif_datetime_def)

lemma datetime_ctor_Inr:
  "datetime_ctor y m d h mi s = Inr dt \<Longrightarrow>
   1 \<le> y \<and> 1 \<le> d \<and> d \<le> days_in_month y m \<and> 1 \<le> m \<and> m \<le> 12 \<and>
   dt = \<lparr>year = nat y, month = nat m, day = nat d, hour = nat h, minute = nat mi,
         second = nat s, microsecond = 0\<rparr>"
  by (auto simp: datetime_ctor_def split: if_splits)

lemma datetime_ctor_invalid_day:
  "d < 1 \<or> days_in_month y m < d \<Longrightarrow> \<exists>e. datetime_ctor y m d h mi s = Inl e"
  by (auto simp: datetime_ctor_def)

lemma datetime_of_match_invalid_day:
  assumes "int_group m ''y'' = Inr y" and "int_group m ''m'' = Inr mo" and "int_group m ''d'' = Inr d"
    and "d < 1 \<or> days_in_month y mo < d"
  shows "\<exists>e. datetime_of_match m = Inl e"
  using assms datetime_ctor_invalid_day [OF assms(4)]
  by (auto simp: datetime_of_match_def split: sum.splits)

lemma datetime_of_match_Inr:
  "datetime_of_match m = Inr dt \<Longrightarrow>
   1 \<le> day dt \<and> int (day dt) \<le> days_in_month (int (year dt)) (int (month dt)) \<and>
   1 \<le> month dt \<and> month dt \<le> 12"
  by (auto simp: datetime_of_match_def split: sum.splits dest!: datetime_ctor_Inr)

lemma try_patterns_valid:
  "try_patterns ps n = Some dt \<Longrightarrow>
   1 \<le> day dt \<and> int (day dt) \<le> days_in_month (int (year dt)) (int (month dt)) \<and>
   1 \<le> month dt \<and> month dt \<le> 12"
  by (induction ps) (auto split: option.splits sum.splits dest: datetime_of_match_Inr)

text \<open>
  C5. When the pattern matches a file name and the matched year, month and day are not
  a calendar date (the day is 00, or beyond the end of the month), the match is
  rejected: \<open>try_parse_from_name\<close> returns \<open>None\<close>, and
  \<open>determine_capture_datetime\<close>, when step 1 found nothing, goes on to the file
  times. Whatever the name, \<open>try_parse_from_name\<close> returns \<open>None\<close> or a datetime
  whose day exists in its month; it has no other outcome.
\<close>

theorem invalid_calendar_match_rejected:
  assumes "search name_pattern (name p) = Some m"
    and "int_group m ''y'' = Inr y" and "int_group m ''m'' = Inr mo" and "int_group m ''d'' = Inr d"
    and "d < 1 \<or> days_in_month y mo < d"
  shows "try_parse_from_name (name p) = None \<and>
         (exif_datetime w p = None \<longrightarrow> determine_capture_datetime w p = get_file_times w p) \<and>
         (\<forall>n. try_parse_from_name n = None \<or>
            (\<exists>dt. try_parse_from_name n = Some dt \<and> 1 \<le> day dt \<and>
               int (day dt) \<le> days_in_month (int (year dt)) (int (month dt))))"
proof (intro conjI allI impI)
  obtain e where "datetime_of_match m = Inl e"
    using datetime_of_match_invalid_day [OF assms(2-5)] by blast
  with assms(1) show none: "try_parse_from_name (name p) = None"
    by (simp add: try_parse_from_name_def DATETIME_NAME_PATTERNS_def)
  assume "exif_datetime w p = None"
  with none show "determine_capture_datetime w p = get_file_times w p"
    by (simp add: determine_steps)
next
  fix n
  show "try_parse_from_name n = None \<or>
      (\<exists>dt. try_parse_from_name n = Some dt \<and> 1 \<le> day dt \<and>
         int (day dt) \<le> days_in_month (int (year dt)) (int (month dt)))"
    using try_patterns_valid [of DATETIME_NAME_PATTERNS n]
    by (cases "try_parse_from_name n") (auto simp: try_parse_from_name_def)
qed

text \<open>The examples: a day of 00 and the 30th of February are matched and rejected; day 32
  is not matched by the pattern at all; a valid date and time is returned.\<close>

lemma example_matches:
  "search name_pattern ''IMG_20210200_153045.jpg'' =
     Some [(''s'', ''45''), (''min'', ''30''), (''h'', ''15''), (''d'', ''00''), (''m'', ''02''), (''y'', ''2021'')]"
  "search name_pattern ''IMG_20210230_153045.jpg'' =
     Some [(''s'', ''45''), (''min'', ''30''), (''h'', ''15''), (''d'', ''30''), (''m'', ''02''), (''y'', ''2021'')]"
  "search name_pattern ''IMG_20210132_153045.jpg'' = None"
  by code_simp+

lemma example_groups:
  "int_group [(''s'', ''45''), (''min'', ''30''), (''h'', ''15''), (''d'', ''00''), (''m'', ''02''), (''y'', ''2021'')] ''y'' = Inr 2021"
  "int_group [(''s'', ''45''), (''min'', ''30''), (''h'', ''15''), (''d'', ''00''), (''m'', ''02''), (''y'', ''2021'')] ''m'' = Inr 2"
  "int_group [(''s'', ''45''), (''min'', ''30''), (''h'', ''15''), (''d'', ''00''), (''m'', ''02''), (''y'', ''2021'')] ''d'' = Inr 0"
  "int_group [(''s'', ''45''), (''min'', ''30''), (''h'', ''15''), (''d'', ''30''), (''m'', ''02''), (''y'', ''2021'')] ''y'' = Inr 2021"
  "int_group [(''s'', ''45''), (''min'', ''30''), (''h'', ''15''), (''d'', ''30''), (''m'', ''02''), (''y'', ''2021'')] ''m'' = Inr 2"
  "int_group [(''s'', ''45''), (''min'', ''30''), (''h'', ''15''), (''d'', ''30''), (''m'', ''02''), (''y'', ''2021'')] ''d'' = Inr 30"
  by (simp_all add: int_group_def group_def py_int_def is_digit_def nat_of_digits_def digit_val_def)

theorem invalid_calendar_match_rejected_witness:
  "search name_pattern (name \<lparr>anchor = ''/'', tail = [''in'', ''IMG_20210200_153045.jpg'']\<rparr>) =
     Some [(''s'', ''45''), (''min'', ''30''), (''h'', ''15''), (''d'', ''00''), (''m'', ''02''), (''y'', ''2021'')] \<and>
   try_parse_from_name (name \<lparr>anchor = ''/'', tail = [''in'', ''IMG_20210200_153045.jpg'']\<rparr>) = None \<and>
   determine_capture_datetime example_world \<lparr>anchor = ''/'', tail = [''in'', ''IMG_20210200_153045.jpg'']\<rparr> =
     get_file_times example_world \<lparr>anchor = ''/'', tail = [''in'', ''IMG_20210200_153045.jpg'']\<rparr> \<and>
   days_in_month 2021 2 = 28 \<and>
   try_parse_from_name (name \<lparr>anchor = ''/'', tail = [''in'', ''IMG_20210230_153045.jpg'']\<rparr>) = None \<and>
   try_parse_from_name ''IMG_20210132_153045.jpg'' = None \<and>
   try_parse_from_name ''IMG_20210102_153045.jpg'' =
     Some \<lparr>year = 2021, month = 1, day = 2, hour = 15, minute = 30, second = 45, microsecond = 0\<rparr>"
proof -
  let ?p = "\<lparr>anchor = ''/'', tail = [''in'', ''IMG_20210200_153045.jpg'']\<rparr>"
  let ?q = "\<lparr>anchor = ''/'', tail = [''in'', ''IMG_20210230_153045.jpg'']\<rparr>"
  have np: "name ?p = ''IMG_20210200_153045.jpg''" and nq: "name ?q = ''IMG_20210230_153045.jpg''"
    by (simp_all add: name_def)
  have dim: "days_in_month 2021 2 = 28"
    by (simp add: days_in_month_def is_leap_def)
  have ex: "exif_datetime example_world ?p = None"
    by (simp add: exif_datetime_def example_world_def)
  have p: "try_parse_from_name (name ?p) = None \<and>
      (exif_datetime example_world ?p = None \<longrightarrow>
        determine_capture_datetime example_world ?p = get_file_times example_world ?p)"
    using invalid_calendar_match_rejected [of ?p _ 2021 2 0 example_world]
      example_matches(1) example_groups(1-3) unfolding np by simp
  have q: "try_parse_from_name (name ?q) = None"
    using invalid_calendar_match_rejected [of ?q _ 2021 2 30 example_world]
      example_matches(2) example_groups(4-6) dim unfolding nq by simp
  have "try_parse_from_name ''IMG_20210132_153045.jpg'' = None"
    "try_parse_from_name ''IMG_20210102_153045.jpg'' =
      Some \<lparr>year = 2021, month = 1, day = 2, hour = 15, minute = 30, second = 45, microsecond = 0\<rparr>"
    by code_simp+
  with p q ex dim example_matches(1) show ?thesis
    unfolding np by simp
qed

subsection \<open>The fallback chain of \<open>determine_capture_datetime\<close>\<close>




lemma first_success_all_None: "first_success (map (\<lambda>x. None) xs) = None"
  by (induction xs) simp_all



subsection \<open>Examples of the fallback chain\<close>

lemma name_in_dir [simp]: "name (in_dir n) = n"
  by (simp add: in_dir_def name_def)









end
